theory Spec2Isabelle
  imports Complex_Main "HOL-Library.Word"
begin

section \<open>The positional nearest-neighbour parameter model (src/param/positional.cpp)\<close>

subsection \<open>Machine types\<close>

text \<open>
  Sequence positions and loop lengths are \<open>size_t\<close> values: 64-bit unsigned
  integers whose subtraction and addition wrap around. The array accessors convert every
  index to a 64-bit \<open>ssize_t\<close> and perform no bounds check, so a table entry is
  identified by its index; a table is a function from indices to values.

  \<open>ScoreType\<close> is declared in \<open>positional.h\<close> and is a floating-point type. It is
  the type parameter \<open>'s\<close> of the model, of which the operations use only \<open>+\<close> (and
  \<open>score_hairpin\<close> the constant 0): the definitions assume no law of addition, neither
  associativity nor commutativity. What a count operation does to an entry is proved for
  every \<open>'s\<close>. The value a score returns, and the entries it depends on, are stated
  for tables of reals, where \<open>+\<close> is exact addition; rounding is not modelled.
\<close>

type_synonym size_t = "64 word"
type_synonym u_int32_t = "32 word"
type_synonym u_int16_t = "16 word"
type_synonym 's table1 = "size_t \<Rightarrow> 's"
type_synonym 's table2 = "size_t \<Rightarrow> size_t \<Rightarrow> 's"

text \<open>
  \<open>std::min<u_int32_t>(a, b)\<close> and \<open>std::min<u_int16_t>(a, b)\<close>: the
  \<open>size_t\<close> argument is converted to the narrower template type (keeping its low
  bits) before the comparison; the result is widened again when it is used as an index.
\<close>

definition min_u_int32_t :: "size_t \<Rightarrow> u_int32_t \<Rightarrow> size_t" where
  "min_u_int32_t a b = ucast (min (ucast a :: u_int32_t) b)"

definition min_u_int16_t :: "size_t \<Rightarrow> u_int16_t \<Rightarrow> size_t" where
  "min_u_int16_t a b = ucast (min (ucast a :: u_int16_t) b)"

text \<open>\<open>std::minmax(a, b)\<close>: the pair (smaller, larger), \<open>(a, b)\<close> on a tie.\<close>

definition minmax :: "size_t \<Rightarrow> size_t \<Rightarrow> size_t \<times> size_t" where
  "minmax a b = (if b < a then (b, a) else (a, b))"

subsection \<open>The object: fifteen score tables and fifteen count tables\<close>

record 's PositionalNearestNeighbor =
  score_helix_stacking :: "'s table2"
  count_helix_stacking :: "'s table2"
  score_mismatch_external :: "'s table2"
  count_mismatch_external :: "'s table2"
  score_mismatch_hairpin :: "'s table2"
  count_mismatch_hairpin :: "'s table2"
  score_mismatch_internal :: "'s table2"
  count_mismatch_internal :: "'s table2"
  score_mismatch_multi :: "'s table2"
  count_mismatch_multi :: "'s table2"
  score_base_hairpin :: "'s table2"
  count_base_hairpin :: "'s table2"
  score_base_internal :: "'s table2"
  count_base_internal :: "'s table2"
  score_base_multi :: "'s table2"
  count_base_multi :: "'s table2"
  score_base_external :: "'s table2"
  count_base_external :: "'s table2"
  score_hairpin_length :: "'s table1"
  count_hairpin_length :: "'s table1"
  score_bulge_length :: "'s table1"
  count_bulge_length :: "'s table1"
  score_internal_length :: "'s table1"
  count_internal_length :: "'s table1"
  score_internal_explicit :: "'s table2"
  count_internal_explicit :: "'s table2"
  score_internal_symmetry :: "'s table1"
  count_internal_symmetry :: "'s table1"
  score_internal_asymmetry :: "'s table1"
  count_internal_asymmetry :: "'s table1"

text \<open>\<open>t[a] += v\<close> and \<open>t(a, b) += v\<close> on a mutable table.\<close>

definition add1 :: "('s::plus) table1 \<Rightarrow> size_t \<Rightarrow> 's \<Rightarrow> 's table1" where
  "add1 t a v = t(a := t a + v)"

definition add2 :: "('s::plus) table2 \<Rightarrow> size_t \<Rightarrow> size_t \<Rightarrow> 's \<Rightarrow> 's table2" where
  "add2 t a b v = t(a := (t a)(b := t a b + v))"

subsection \<open>Hairpin loops\<close>

text \<open>
  In \<open>score_hairpin\<close> the accumulator \<open>e\<close> starts from the literal \<open>0.\<close>; the
  model adds the three entries to 0 in \<open>ScoreType\<close>, in the order of the source.
\<close>

definition score_hairpin :: "('s::{plus,zero}) PositionalNearestNeighbor \<Rightarrow> size_t \<Rightarrow> size_t \<Rightarrow> 's" where
  "score_hairpin p i j =
     (let l = (j - 1) - (i + 1) + 1;
          e0 = 0;
          e1 = e0 + score_hairpin_length p (min_u_int32_t l 30);
          e2 = e1 + score_base_hairpin p (i + 1) (j - 1);
          e3 = e2 + score_mismatch_hairpin p i j
      in e3)"

text \<open>
  The branch that folds a long loop into bucket 30 is compiled out (\<open>#if 0\<close>); the
  active branch updates the length table only when \<open>l <= 30\<close>.
\<close>

definition count_hairpin ::
  "('s::plus) PositionalNearestNeighbor \<Rightarrow> size_t \<Rightarrow> size_t \<Rightarrow> 's \<Rightarrow> 's PositionalNearestNeighbor" where
  "count_hairpin p i j v =
     (let l = (j - 1) - (i + 1) + 1;
          p1 = (if l \<le> 30
                then p\<lparr>count_hairpin_length := add1 (count_hairpin_length p) l v\<rparr>
                else p);
          p2 = p1\<lparr>count_base_hairpin := add2 (count_base_hairpin p1) (i + 1) (j - 1) v\<rparr>;
          p3 = p2\<lparr>count_mismatch_hairpin := add2 (count_mismatch_hairpin p2) i j v\<rparr>
      in p3)"

subsection \<open>Single loops: stack, bulge, internal loop\<close>

text \<open>
  The two unpaired runs \<open>l1\<close> and \<open>l2\<close> are ordered into \<open>(ls, ll)\<close> and one
  of three branches is taken; each branch is given as a definition of its own. The outer
  variable \<open>e\<close> initialised to the lowest score is never returned: every branch returns
  its own local \<open>e\<close>.
\<close>

definition score_stack ::
  "('s::plus) PositionalNearestNeighbor \<Rightarrow> size_t \<Rightarrow> size_t \<Rightarrow> size_t \<Rightarrow> size_t \<Rightarrow> 's" where
  "score_stack p i j k l = score_helix_stacking p i j + score_helix_stacking p l k"

definition score_bulge ::
  "('s::plus) PositionalNearestNeighbor \<Rightarrow> size_t \<Rightarrow> size_t \<Rightarrow> size_t \<Rightarrow> size_t \<Rightarrow> size_t \<Rightarrow> 's" where
  "score_bulge p i j k l ll =
     (let e0 = score_bulge_length p (min_u_int16_t ll 30);
          e1 = e0 + (score_base_internal p (i + 1) (k - 1) + score_base_internal p (l + 1) (j - 1));
          e2 = e1 + (score_mismatch_internal p i j + score_mismatch_internal p l k)
      in e2)"

definition score_internal ::
  "('s::plus) PositionalNearestNeighbor \<Rightarrow> size_t \<Rightarrow> size_t \<Rightarrow> size_t \<Rightarrow> size_t \<Rightarrow> size_t \<Rightarrow> size_t
     \<Rightarrow> 's" where
  "score_internal p i j k l ls ll =
     (let e0 = score_internal_length p (min_u_int32_t (ls + ll) 30);
          e1 = e0 + (score_base_internal p (i + 1) (k - 1) + score_base_internal p (l + 1) (j - 1));
          e2 = e1 + score_internal_explicit p (min_u_int32_t ls 4) (min_u_int32_t ll 4);
          e3 = (if ls = ll then e2 + score_internal_symmetry p (min_u_int32_t ll 15) else e2);
          e4 = e3 + score_internal_asymmetry p (min_u_int32_t (ll - ls) 28);
          e5 = e4 + (score_mismatch_internal p i j + score_mismatch_internal p l k)
      in e5)"

definition score_single_loop ::
  "('s::plus) PositionalNearestNeighbor \<Rightarrow> size_t \<Rightarrow> size_t \<Rightarrow> size_t \<Rightarrow> size_t \<Rightarrow> 's" where
  "score_single_loop p i j k l =
     (let l1 = (k - 1) - (i + 1) + 1;
          l2 = (j - 1) - (l + 1) + 1;
          (ls, ll) = minmax l1 l2
      in if ll = 0 then score_stack p i j k l
         else if ls = 0 then score_bulge p i j k l ll
         else score_internal p i j k l ls ll)"

text \<open>
  The accumulating counterpart. As for hairpins, the branches that fold a long bulge or
  internal loop into bucket 30 are compiled out; the active ones test the full-width length.
\<close>

definition count_stack ::
  "('s::plus) PositionalNearestNeighbor \<Rightarrow> size_t \<Rightarrow> size_t \<Rightarrow> size_t \<Rightarrow> size_t \<Rightarrow> 's
     \<Rightarrow> 's PositionalNearestNeighbor" where
  "count_stack p i j k l v =
     (let p1 = p\<lparr>count_helix_stacking := add2 (count_helix_stacking p) i j v\<rparr>;
          p2 = p1\<lparr>count_helix_stacking := add2 (count_helix_stacking p1) l k v\<rparr>
      in p2)"

definition count_bulge ::
  "('s::plus) PositionalNearestNeighbor \<Rightarrow> size_t \<Rightarrow> size_t \<Rightarrow> size_t \<Rightarrow> size_t \<Rightarrow> size_t \<Rightarrow> 's
     \<Rightarrow> 's PositionalNearestNeighbor" where
  "count_bulge p i j k l ll v =
     (let p1 = (if ll \<le> 30
                then p\<lparr>count_bulge_length := add1 (count_bulge_length p) ll v\<rparr>
                else p);
          p2 = p1\<lparr>count_base_internal := add2 (count_base_internal p1) (i + 1) (k - 1) v\<rparr>;
          p3 = p2\<lparr>count_base_internal := add2 (count_base_internal p2) (l + 1) (j - 1) v\<rparr>;
          p4 = p3\<lparr>count_mismatch_internal := add2 (count_mismatch_internal p3) i j v\<rparr>;
          p5 = p4\<lparr>count_mismatch_internal := add2 (count_mismatch_internal p4) l k v\<rparr>
      in p5)"

definition count_internal ::
  "('s::plus) PositionalNearestNeighbor \<Rightarrow> size_t \<Rightarrow> size_t \<Rightarrow> size_t \<Rightarrow> size_t \<Rightarrow> size_t \<Rightarrow> size_t
     \<Rightarrow> 's \<Rightarrow> 's PositionalNearestNeighbor" where
  "count_internal p i j k l ls ll v =
     (let p1 = (if ls + ll \<le> 30
                then p\<lparr>count_internal_length := add1 (count_internal_length p) (ls + ll) v\<rparr>
                else p);
          p2 = p1\<lparr>count_base_internal := add2 (count_base_internal p1) (i + 1) (k - 1) v\<rparr>;
          p3 = p2\<lparr>count_base_internal := add2 (count_base_internal p2) (l + 1) (j - 1) v\<rparr>;
          p4 = p3\<lparr>count_internal_explicit :=
                    add2 (count_internal_explicit p3) (min_u_int32_t ls 4) (min_u_int32_t ll 4) v\<rparr>;
          p5 = (if ls = ll
                then p4\<lparr>count_internal_symmetry :=
                           add1 (count_internal_symmetry p4) (min_u_int32_t ll 15) v\<rparr>
                else p4);
          p6 = p5\<lparr>count_internal_asymmetry :=
                    add1 (count_internal_asymmetry p5) (min_u_int32_t (ll - ls) 28) v\<rparr>;
          p7 = p6\<lparr>count_mismatch_internal := add2 (count_mismatch_internal p6) i j v\<rparr>;
          p8 = p7\<lparr>count_mismatch_internal := add2 (count_mismatch_internal p7) l k v\<rparr>
      in p8)"

definition count_single_loop ::
  "('s::plus) PositionalNearestNeighbor \<Rightarrow> size_t \<Rightarrow> size_t \<Rightarrow> size_t \<Rightarrow> size_t \<Rightarrow> 's
     \<Rightarrow> 's PositionalNearestNeighbor" where
  "count_single_loop p i j k l v =
     (let l1 = (k - 1) - (i + 1) + 1;
          l2 = (j - 1) - (l + 1) + 1;
          (ls, ll) = minmax l1 l2
      in if ll = 0 then count_stack p i j k l v
         else if ls = 0 then count_bulge p i j k l ll v
         else count_internal p i j k l ls ll v)"

subsection \<open>Multi-branch and external loops\<close>

definition score_multi_loop :: "('s::plus) PositionalNearestNeighbor \<Rightarrow> size_t \<Rightarrow> size_t \<Rightarrow> 's" where
  "score_multi_loop p i j = score_mismatch_multi p i j"

definition count_multi_loop ::
  "('s::plus) PositionalNearestNeighbor \<Rightarrow> size_t \<Rightarrow> size_t \<Rightarrow> 's \<Rightarrow> 's PositionalNearestNeighbor" where
  "count_multi_loop p i j v = p\<lparr>count_mismatch_multi := add2 (count_mismatch_multi p) i j v\<rparr>"

definition score_multi_paired :: "('s::plus) PositionalNearestNeighbor \<Rightarrow> size_t \<Rightarrow> size_t \<Rightarrow> 's" where
  "score_multi_paired p i j = score_mismatch_multi p j i"

definition count_multi_paired ::
  "('s::plus) PositionalNearestNeighbor \<Rightarrow> size_t \<Rightarrow> size_t \<Rightarrow> 's \<Rightarrow> 's PositionalNearestNeighbor" where
  "count_multi_paired p i j v = p\<lparr>count_mismatch_multi := add2 (count_mismatch_multi p) j i v\<rparr>"

definition score_multi_unpaired :: "('s::plus) PositionalNearestNeighbor \<Rightarrow> size_t \<Rightarrow> size_t \<Rightarrow> 's" where
  "score_multi_unpaired p i j = score_base_multi p i j"

definition count_multi_unpaired ::
  "('s::plus) PositionalNearestNeighbor \<Rightarrow> size_t \<Rightarrow> size_t \<Rightarrow> 's \<Rightarrow> 's PositionalNearestNeighbor" where
  "count_multi_unpaired p i j v = p\<lparr>count_base_multi := add2 (count_base_multi p) i j v\<rparr>"

definition score_external_paired :: "('s::plus) PositionalNearestNeighbor \<Rightarrow> size_t \<Rightarrow> size_t \<Rightarrow> 's" where
  "score_external_paired p i j = score_mismatch_external p j i"

definition count_external_paired ::
  "('s::plus) PositionalNearestNeighbor \<Rightarrow> size_t \<Rightarrow> size_t \<Rightarrow> 's \<Rightarrow> 's PositionalNearestNeighbor" where
  "count_external_paired p i j v =
     p\<lparr>count_mismatch_external := add2 (count_mismatch_external p) j i v\<rparr>"

definition score_external_unpaired :: "('s::plus) PositionalNearestNeighbor \<Rightarrow> size_t \<Rightarrow> size_t \<Rightarrow> 's" where
  "score_external_unpaired p i j = score_base_external p i j"

definition count_external_unpaired ::
  "('s::plus) PositionalNearestNeighbor \<Rightarrow> size_t \<Rightarrow> size_t \<Rightarrow> 's \<Rightarrow> 's PositionalNearestNeighbor" where
  "count_external_unpaired p i j v = p\<lparr>count_base_external := add2 (count_base_external p) i j v\<rparr>"

subsection \<open>Table entries\<close>

text \<open>
  An entry names one cell of one of the fifteen table families; \<open>score_at\<close> and
  \<open>count_at\<close> read that cell in the score table and in the count table of the family.
\<close>

datatype entry =
    Helix_stacking size_t size_t
  | Mismatch_external size_t size_t
  | Mismatch_hairpin size_t size_t
  | Mismatch_internal size_t size_t
  | Mismatch_multi size_t size_t
  | Base_hairpin size_t size_t
  | Base_internal size_t size_t
  | Base_multi size_t size_t
  | Base_external size_t size_t
  | Hairpin_length size_t
  | Bulge_length size_t
  | Internal_length size_t
  | Internal_explicit size_t size_t
  | Internal_symmetry size_t
  | Internal_asymmetry size_t

fun score_at :: "'s PositionalNearestNeighbor \<Rightarrow> entry \<Rightarrow> 's" where
  "score_at p (Helix_stacking a b) = score_helix_stacking p a b"
| "score_at p (Mismatch_external a b) = score_mismatch_external p a b"
| "score_at p (Mismatch_hairpin a b) = score_mismatch_hairpin p a b"
| "score_at p (Mismatch_internal a b) = score_mismatch_internal p a b"
| "score_at p (Mismatch_multi a b) = score_mismatch_multi p a b"
| "score_at p (Base_hairpin a b) = score_base_hairpin p a b"
| "score_at p (Base_internal a b) = score_base_internal p a b"
| "score_at p (Base_multi a b) = score_base_multi p a b"
| "score_at p (Base_external a b) = score_base_external p a b"
| "score_at p (Hairpin_length a) = score_hairpin_length p a"
| "score_at p (Bulge_length a) = score_bulge_length p a"
| "score_at p (Internal_length a) = score_internal_length p a"
| "score_at p (Internal_explicit a b) = score_internal_explicit p a b"
| "score_at p (Internal_symmetry a) = score_internal_symmetry p a"
| "score_at p (Internal_asymmetry a) = score_internal_asymmetry p a"

fun count_at :: "'s PositionalNearestNeighbor \<Rightarrow> entry \<Rightarrow> 's" where
  "count_at p (Helix_stacking a b) = count_helix_stacking p a b"
| "count_at p (Mismatch_external a b) = count_mismatch_external p a b"
| "count_at p (Mismatch_hairpin a b) = count_mismatch_hairpin p a b"
| "count_at p (Mismatch_internal a b) = count_mismatch_internal p a b"
| "count_at p (Mismatch_multi a b) = count_mismatch_multi p a b"
| "count_at p (Base_hairpin a b) = count_base_hairpin p a b"
| "count_at p (Base_internal a b) = count_base_internal p a b"
| "count_at p (Base_multi a b) = count_base_multi p a b"
| "count_at p (Base_external a b) = count_base_external p a b"
| "count_at p (Hairpin_length a) = count_hairpin_length p a"
| "count_at p (Bulge_length a) = count_bulge_length p a"
| "count_at p (Internal_length a) = count_internal_length p a"
| "count_at p (Internal_explicit a b) = count_internal_explicit p a b"
| "count_at p (Internal_symmetry a) = count_internal_symmetry p a"
| "count_at p (Internal_asymmetry a) = count_internal_asymmetry p a"

text \<open>Overwriting one cell of a score table, to vary the parameters a score is computed from.\<close>

fun poke_score :: "entry \<Rightarrow> 's \<Rightarrow> 's PositionalNearestNeighbor \<Rightarrow> 's PositionalNearestNeighbor" where
  "poke_score (Helix_stacking a b) x p =
     p\<lparr>score_helix_stacking := (score_helix_stacking p)(a := (score_helix_stacking p a)(b := x))\<rparr>"
| "poke_score (Mismatch_external a b) x p =
     p\<lparr>score_mismatch_external := (score_mismatch_external p)(a := (score_mismatch_external p a)(b := x))\<rparr>"
| "poke_score (Mismatch_hairpin a b) x p =
     p\<lparr>score_mismatch_hairpin := (score_mismatch_hairpin p)(a := (score_mismatch_hairpin p a)(b := x))\<rparr>"
| "poke_score (Mismatch_internal a b) x p =
     p\<lparr>score_mismatch_internal := (score_mismatch_internal p)(a := (score_mismatch_internal p a)(b := x))\<rparr>"
| "poke_score (Mismatch_multi a b) x p =
     p\<lparr>score_mismatch_multi := (score_mismatch_multi p)(a := (score_mismatch_multi p a)(b := x))\<rparr>"
| "poke_score (Base_hairpin a b) x p =
     p\<lparr>score_base_hairpin := (score_base_hairpin p)(a := (score_base_hairpin p a)(b := x))\<rparr>"
| "poke_score (Base_internal a b) x p =
     p\<lparr>score_base_internal := (score_base_internal p)(a := (score_base_internal p a)(b := x))\<rparr>"
| "poke_score (Base_multi a b) x p =
     p\<lparr>score_base_multi := (score_base_multi p)(a := (score_base_multi p a)(b := x))\<rparr>"
| "poke_score (Base_external a b) x p =
     p\<lparr>score_base_external := (score_base_external p)(a := (score_base_external p a)(b := x))\<rparr>"
| "poke_score (Hairpin_length a) x p = p\<lparr>score_hairpin_length := (score_hairpin_length p)(a := x)\<rparr>"
| "poke_score (Bulge_length a) x p = p\<lparr>score_bulge_length := (score_bulge_length p)(a := x)\<rparr>"
| "poke_score (Internal_length a) x p = p\<lparr>score_internal_length := (score_internal_length p)(a := x)\<rparr>"
| "poke_score (Internal_explicit a b) x p =
     p\<lparr>score_internal_explicit := (score_internal_explicit p)(a := (score_internal_explicit p a)(b := x))\<rparr>"
| "poke_score (Internal_symmetry a) x p = p\<lparr>score_internal_symmetry := (score_internal_symmetry p)(a := x)\<rparr>"
| "poke_score (Internal_asymmetry a) x p = p\<lparr>score_internal_asymmetry := (score_internal_asymmetry p)(a := x)\<rparr>"

text \<open>
  The entries a scoring operation reads: those whose value its result depends on.
\<close>

definition reads_of :: "('s PositionalNearestNeighbor \<Rightarrow> 's) \<Rightarrow> entry set" where
  "reads_of f = {e. \<exists>p x. f (poke_score e x p) \<noteq> f p}"

text \<open>The three one-dimensional length tables, whose accumulation skips long loops.\<close>

fun length_table :: "entry \<Rightarrow> bool" where
  "length_table (Hairpin_length a) = True"
| "length_table (Bulge_length a) = True"
| "length_table (Internal_length a) = True"
| "length_table e = False"

definition skipped :: "entry \<Rightarrow> size_t \<Rightarrow> bool" where
  "skipped e len = (length_table e \<and> 30 < len)"

text \<open>
  The unpaired length of a hairpin closed by \<open>(i, j)\<close>, and the two unpaired runs of a
  single loop with outer pair \<open>(i, j)\<close> and inner pair \<open>(k, l)\<close>, as the code
  computes them.
\<close>

definition hairpin_len :: "size_t \<Rightarrow> size_t \<Rightarrow> size_t" where
  "hairpin_len i j = (j - 1) - (i + 1) + 1"

definition run1 :: "size_t \<Rightarrow> size_t \<Rightarrow> size_t" where
  "run1 i k = (k - 1) - (i + 1) + 1"

definition run2 :: "size_t \<Rightarrow> size_t \<Rightarrow> size_t" where
  "run2 j l = (j - 1) - (l + 1) + 1"

text \<open>
  Well-formed boundaries of a single loop (section 3 of the specification):
  \<open>i < k \<le> l < j\<close> for an outer pair \<open>(i, j)\<close> around an inner pair \<open>(k, l)\<close>.
\<close>

definition wf_single_loop :: "size_t \<Rightarrow> size_t \<Rightarrow> size_t \<Rightarrow> size_t \<Rightarrow> bool" where
  "wf_single_loop i j k l = (i < k \<and> k \<le> l \<and> l < j)"

text \<open>Tables of reals, the instance in which \<open>+\<close> is exact addition.\<close>

type_synonym real_tables = "real PositionalNearestNeighbor"

text \<open>The tables of reals with every entry zero, the usual starting point for counts.\<close>

definition zero_pnn :: real_tables where
  "zero_pnn = \<lparr>
     score_helix_stacking = (\<lambda>a b. 0),
     count_helix_stacking = (\<lambda>a b. 0),
     score_mismatch_external = (\<lambda>a b. 0),
     count_mismatch_external = (\<lambda>a b. 0),
     score_mismatch_hairpin = (\<lambda>a b. 0),
     count_mismatch_hairpin = (\<lambda>a b. 0),
     score_mismatch_internal = (\<lambda>a b. 0),
     count_mismatch_internal = (\<lambda>a b. 0),
     score_mismatch_multi = (\<lambda>a b. 0),
     count_mismatch_multi = (\<lambda>a b. 0),
     score_base_hairpin = (\<lambda>a b. 0),
     count_base_hairpin = (\<lambda>a b. 0),
     score_base_internal = (\<lambda>a b. 0),
     count_base_internal = (\<lambda>a b. 0),
     score_base_multi = (\<lambda>a b. 0),
     count_base_multi = (\<lambda>a b. 0),
     score_base_external = (\<lambda>a b. 0),
     count_base_external = (\<lambda>a b. 0),
     score_hairpin_length = (\<lambda>a. 0),
     count_hairpin_length = (\<lambda>a. 0),
     score_bulge_length = (\<lambda>a. 0),
     count_bulge_length = (\<lambda>a. 0),
     score_internal_length = (\<lambda>a. 0),
     count_internal_length = (\<lambda>a. 0),
     score_internal_explicit = (\<lambda>a b. 0),
     count_internal_explicit = (\<lambda>a b. 0),
     score_internal_symmetry = (\<lambda>a. 0),
     count_internal_symmetry = (\<lambda>a. 0),
     score_internal_asymmetry = (\<lambda>a. 0),
     count_internal_asymmetry = (\<lambda>a. 0) \<rparr>"

text \<open>
  The entries each scoring operation adds up, in the order of the source. That these are
  the entries read is proved below (\<open>reads_of\<close> of the operation is the set of the list).
\<close>

definition hairpin_reads :: "size_t \<Rightarrow> size_t \<Rightarrow> entry list" where
  "hairpin_reads i j =
     [Hairpin_length (min_u_int32_t (hairpin_len i j) 30), Base_hairpin (i + 1) (j - 1),
      Mismatch_hairpin i j]"

definition stack_reads :: "size_t \<Rightarrow> size_t \<Rightarrow> size_t \<Rightarrow> size_t \<Rightarrow> entry list" where
  "stack_reads i j k l = [Helix_stacking i j, Helix_stacking l k]"

definition bulge_reads :: "size_t \<Rightarrow> size_t \<Rightarrow> size_t \<Rightarrow> size_t \<Rightarrow> size_t \<Rightarrow> entry list" where
  "bulge_reads i j k l ll =
     [Bulge_length (min_u_int16_t ll 30), Base_internal (i + 1) (k - 1),
      Base_internal (l + 1) (j - 1), Mismatch_internal i j, Mismatch_internal l k]"

definition internal_reads ::
  "size_t \<Rightarrow> size_t \<Rightarrow> size_t \<Rightarrow> size_t \<Rightarrow> size_t \<Rightarrow> size_t \<Rightarrow> entry list" where
  "internal_reads i j k l ls ll =
     [Internal_length (min_u_int32_t (ls + ll) 30), Base_internal (i + 1) (k - 1),
      Base_internal (l + 1) (j - 1),
      Internal_explicit (min_u_int32_t ls 4) (min_u_int32_t ll 4)]
     @ (if ls = ll then [Internal_symmetry (min_u_int32_t ll 15)] else [])
     @ [Internal_asymmetry (min_u_int32_t (ll - ls) 28), Mismatch_internal i j,
        Mismatch_internal l k]"

definition single_loop_reads :: "size_t \<Rightarrow> size_t \<Rightarrow> size_t \<Rightarrow> size_t \<Rightarrow> entry list" where
  "single_loop_reads i j k l =
     (let (ls, ll) = minmax (run1 i k) (run2 j l)
      in if ll = 0 then stack_reads i j k l
         else if ls = 0 then bulge_reads i j k l ll
         else internal_reads i j k l ls ll)"

text \<open>The entries a count operation writes: those it can change.\<close>

definition writes_of ::
  "('s PositionalNearestNeighbor \<Rightarrow> 's \<Rightarrow> 's PositionalNearestNeighbor) \<Rightarrow> entry set" where
  "writes_of c = {e. \<exists>p v. count_at (c p v) e \<noteq> count_at p e}"

section \<open>Facts about the model\<close>

subsection \<open>Entries, and the entries a sum of entries depends on\<close>

lemma score_at_poke: "score_at (poke_score e x p) e' = (if e' = e then x else score_at p e')"
  by (cases e; cases e'; simp)

lemma count_at_poke: "count_at (poke_score e x p) e' = count_at p e'"
  by (cases e; cases e'; simp)

lemma sum_indicator: "(\<Sum>e'\<leftarrow>rs. if e' = e then (1::real) else 0) = real (count_list rs e)"
  by (induction rs) auto

lemma score_at_zero: "score_at zero_pnn e = 0"
  by (cases e; simp add: zero_pnn_def)

lemma count_at_zero: "count_at zero_pnn e = 0"
  by (cases e; simp add: zero_pnn_def)

lemma reads_of_sum:
  fixes f :: "real_tables \<Rightarrow> real"
  assumes "\<And>p. f p = (\<Sum>e\<leftarrow>rs. score_at p e)"
  shows "reads_of f = set rs"
proof (rule set_eqI)
  fix e
  show "e \<in> reads_of f \<longleftrightarrow> e \<in> set rs"
  proof
    assume "e \<in> reads_of f"
    then obtain p x where neq: "f (poke_score e x p) \<noteq> f p"
      by (auto simp: reads_of_def)
    show "e \<in> set rs"
    proof (rule ccontr)
      assume "e \<notin> set rs"
      then have "map (score_at (poke_score e x p)) rs = map (score_at p) rs"
        by (auto simp: score_at_poke)
      with neq show False by (simp add: assms)
    qed
  next
    assume mem: "e \<in> set rs"
    have "f (poke_score e 1 zero_pnn) = real (count_list rs e)"
      by (simp add: assms score_at_poke score_at_zero sum_indicator cong: if_cong)
    moreover have "f zero_pnn = 0"
      by (simp add: assms score_at_zero)
    moreover have "count_list rs e > 0"
      using mem count_list_0_iff [of rs e] by simp
    ultimately have "f (poke_score e 1 zero_pnn) \<noteq> f zero_pnn" by simp
    then show "e \<in> reads_of f" by (auto simp: reads_of_def)
  qed
qed

lemma score_hairpin_sum: "score_hairpin p i j = (\<Sum>e\<leftarrow>hairpin_reads i j. score_at p e)"
  for p :: "real_tables"
  by (simp add: score_hairpin_def hairpin_reads_def hairpin_len_def Let_def)

lemma score_single_loop_sum:
  "score_single_loop p i j k l = (\<Sum>e\<leftarrow>single_loop_reads i j k l. score_at p e)"
  for p :: "real_tables"
  by (simp add: score_single_loop_def single_loop_reads_def run1_def run2_def Let_def
      score_stack_def score_bulge_def score_internal_def stack_reads_def bulge_reads_def
      internal_reads_def split: prod.split)

subsection \<open>The narrowing clamps\<close>

lemma unat_narrow32: "unat (ucast (a :: size_t) :: u_int32_t) = unat a mod 2 ^ 32"
  by (simp add: unsigned_ucast_eq take_bit_eq_mod)

lemma unat_widen32: "unat (ucast (w :: u_int32_t) :: size_t) = unat w"
proof -
  have "unat w < 2 ^ 32" using unsigned_less [of w] by simp
  then have "unat w < 2 ^ 64" by simp
  then show ?thesis by (simp add: unsigned_ucast_eq take_bit_nat_eq_self)
qed

lemma unat_narrow16: "unat (ucast (a :: size_t) :: u_int16_t) = unat a mod 2 ^ 16"
  by (simp add: unsigned_ucast_eq take_bit_eq_mod)

lemma unat_widen16: "unat (ucast (w :: u_int16_t) :: size_t) = unat w"
proof -
  have "unat w < 2 ^ 16" using unsigned_less [of w] by simp
  then have "unat w < 2 ^ 64" by simp
  then show ?thesis by (simp add: unsigned_ucast_eq take_bit_nat_eq_self)
qed

lemma unat_min_u_int32_t: "unat (min_u_int32_t a b) = min (unat a mod 2 ^ 32) (unat b)"
  by (simp add: min_u_int32_t_def min_def word_le_nat_alt unat_narrow32 unat_widen32)

lemma unat_min_u_int16_t: "unat (min_u_int16_t a b) = min (unat a mod 2 ^ 16) (unat b)"
  by (simp add: min_u_int16_t_def min_def word_le_nat_alt unat_narrow16 unat_widen16)

lemma min_u_int32_t_small: "a \<le> 30 \<Longrightarrow> min_u_int32_t a 30 = a"
  by (rule word_unat_eq_iff [THEN iffD2]) (simp add: unat_min_u_int32_t word_le_nat_alt)

lemma min_u_int16_t_small: "a \<le> 30 \<Longrightarrow> min_u_int16_t a 30 = a"
  by (rule word_unat_eq_iff [THEN iffD2]) (simp add: unat_min_u_int16_t word_le_nat_alt)

subsection \<open>The effect of the count operations on an entry\<close>

lemma count_hairpin_at:
  "count_at (count_hairpin p i j v) e =
     (if e \<in> set (hairpin_reads i j) \<and> \<not> skipped e (hairpin_len i j)
      then count_at p e + v else count_at p e)"
  by (cases e)
    (auto simp add: count_hairpin_def hairpin_reads_def hairpin_len_def Let_def skipped_def
      add1_def add2_def min_u_int32_t_small)

lemma count_stack_at:
  "i \<noteq> l \<or> j \<noteq> k \<Longrightarrow>
   count_at (count_stack p i j k l v) e =
     (if e \<in> set (stack_reads i j k l) then count_at p e + v else count_at p e)"
  by (cases e) (auto simp add: count_stack_def stack_reads_def Let_def add2_def)

lemma count_bulge_at:
  "i \<noteq> l \<or> j \<noteq> k \<Longrightarrow>
   count_at (count_bulge p i j k l ll v) e =
     (if e \<in> set (bulge_reads i j k l ll) \<and> \<not> skipped e ll
      then count_at p e + v else count_at p e)"
  by (cases e)
    (auto simp add: count_bulge_def bulge_reads_def Let_def add1_def add2_def skipped_def
      min_u_int16_t_small)

lemma count_internal_alt:
  "count_internal p i j k l ls ll v =
     p\<lparr>count_internal_length :=
         (if ls + ll \<le> 30 then add1 (count_internal_length p) (ls + ll) v
          else count_internal_length p),
       count_base_internal :=
         add2 (add2 (count_base_internal p) (i + 1) (k - 1) v) (l + 1) (j - 1) v,
       count_internal_explicit :=
         add2 (count_internal_explicit p) (min_u_int32_t ls 4) (min_u_int32_t ll 4) v,
       count_internal_symmetry :=
         (if ls = ll then add1 (count_internal_symmetry p) (min_u_int32_t ll 15) v
          else count_internal_symmetry p),
       count_internal_asymmetry :=
         add1 (count_internal_asymmetry p) (min_u_int32_t (ll - ls) 28) v,
       count_mismatch_internal := add2 (add2 (count_mismatch_internal p) i j v) l k v\<rparr>"
proof (cases "ls + ll \<le> 30")
  case True
  then show ?thesis
    by (cases "ls = ll") (simp_all add: count_internal_def Let_def)
next
  case False
  then show ?thesis
    by (cases "ls = ll") (simp_all add: count_internal_def Let_def)
qed

lemma count_internal_at:
  assumes "i \<noteq> l \<or> j \<noteq> k"
  shows "count_at (count_internal p i j k l ls ll v) e =
     (if e \<in> set (internal_reads i j k l ls ll) \<and> \<not> skipped e (ls + ll)
      then count_at p e + v else count_at p e)"
proof (cases e)
  case (Internal_length a)
  then show ?thesis
    by (auto simp add: count_internal_alt internal_reads_def add1_def skipped_def
        min_u_int32_t_small)
next
  case (Base_internal a b)
  then show ?thesis
    using assms by (auto simp add: count_internal_alt internal_reads_def add2_def skipped_def)
next
  case (Mismatch_internal a b)
  then show ?thesis
    using assms by (auto simp add: count_internal_alt internal_reads_def add2_def skipped_def)
next
  case (Internal_explicit a b)
  then show ?thesis
    by (auto simp add: count_internal_alt internal_reads_def add2_def skipped_def)
next
  case (Internal_symmetry a)
  then show ?thesis
    by (auto simp add: count_internal_alt internal_reads_def add1_def skipped_def)
next
  case (Internal_asymmetry a)
  then show ?thesis
    by (auto simp add: count_internal_alt internal_reads_def add1_def skipped_def)
qed (simp_all add: count_internal_alt internal_reads_def)

lemma minmax_sum: "minmax a b = (ls, ll) \<Longrightarrow> ls + ll = a + b"
  by (auto simp: minmax_def split: if_splits)

lemma count_single_loop_at:
  assumes "i \<noteq> l \<or> j \<noteq> k"
  shows "count_at (count_single_loop p i j k l v) e =
     (if e \<in> set (single_loop_reads i j k l) \<and> \<not> skipped e (run1 i k + run2 j l)
      then count_at p e + v else count_at p e)"
proof -
  obtain ls ll where mm: "minmax (run1 i k) (run2 j l) = (ls, ll)"
    by (cases "minmax (run1 i k) (run2 j l)")
  have sum: "ls + ll = run1 i k + run2 j l" using mm by (rule minmax_sum)
  have mm': "minmax (k - 1 - (i + 1) + 1) (j - 1 - (l + 1) + 1) = (ls, ll)"
    using mm by (simp add: run1_def run2_def)
  show ?thesis
  proof (cases "ll = 0")
    case True
    have "\<not> length_table e" if "e \<in> set (stack_reads i j k l)"
      using that by (auto simp: stack_reads_def)
    then show ?thesis
      using True mm mm' assms count_stack_at [of i l j k p v e]
      by (auto simp add: count_single_loop_def single_loop_reads_def skipped_def Let_def)
  next
    case False
    show ?thesis
    proof (cases "ls = 0")
      case True
      with sum have "ll = run1 i k + run2 j l" by simp
      then show ?thesis
        using True False mm mm' count_bulge_at [OF assms, of p ll v e]
        by (simp add: count_single_loop_def single_loop_reads_def Let_def)
    next
      case ls: False
      show ?thesis
        using ls False mm mm' sum count_internal_at [OF assms, of p ls ll v e]
        by (simp add: count_single_loop_def single_loop_reads_def Let_def)
    qed
  qed
qed

lemma wf_single_loop_distinct: "wf_single_loop i j k l \<Longrightarrow> i \<noteq> l \<or> j \<noteq> k"
  by (auto simp: wf_single_loop_def)

lemma score_at_count_hairpin: "score_at (count_hairpin p i j v) e = score_at p e"
  by (cases e) (simp_all add: count_hairpin_def Let_def)

lemma score_at_count_single_loop: "score_at (count_single_loop p i j k l v) e = score_at p e"
  by (cases e)
    (simp_all add: count_single_loop_def count_stack_def count_bulge_def count_internal_def
      Let_def split: prod.split)

lemma reads_of_single:
  fixes f :: "real_tables \<Rightarrow> real"
  assumes "\<And>p. f p = score_at p e"
  shows "reads_of f = {e}"
  using reads_of_sum [of f "[e]"] assms by simp

lemma count_multi_loop_at:
  "count_at (count_multi_loop p i j v) e =
     (if e = Mismatch_multi i j then count_at p e + v else count_at p e)"
  by (cases e) (auto simp add: count_multi_loop_def add2_def)

lemma count_multi_paired_at:
  "count_at (count_multi_paired p i j v) e =
     (if e = Mismatch_multi j i then count_at p e + v else count_at p e)"
  by (cases e) (auto simp add: count_multi_paired_def add2_def)

lemma count_multi_unpaired_at:
  "count_at (count_multi_unpaired p i j v) e =
     (if e = Base_multi i j then count_at p e + v else count_at p e)"
  by (cases e) (auto simp add: count_multi_unpaired_def add2_def)

lemma count_external_paired_at:
  "count_at (count_external_paired p i j v) e =
     (if e = Mismatch_external j i then count_at p e + v else count_at p e)"
  by (cases e) (auto simp add: count_external_paired_def add2_def)

lemma count_external_unpaired_at:
  "count_at (count_external_unpaired p i j v) e =
     (if e = Base_external i j then count_at p e + v else count_at p e)"
  by (cases e) (auto simp add: count_external_unpaired_def add2_def)

lemma score_at_count_multi_loop: "score_at (count_multi_loop p i j v) e = score_at p e"
  by (cases e) (simp_all add: count_multi_loop_def)

lemma score_at_count_multi_paired: "score_at (count_multi_paired p i j v) e = score_at p e"
  by (cases e) (simp_all add: count_multi_paired_def)

lemma score_at_count_multi_unpaired: "score_at (count_multi_unpaired p i j v) e = score_at p e"
  by (cases e) (simp_all add: count_multi_unpaired_def)

lemma score_at_count_external_paired: "score_at (count_external_paired p i j v) e = score_at p e"
  by (cases e) (simp_all add: count_external_paired_def)

lemma score_at_count_external_unpaired:
  "score_at (count_external_unpaired p i j v) e = score_at p e"
  by (cases e) (simp_all add: count_external_unpaired_def)

lemma reads_of_multi_loop: "reads_of (\<lambda>p :: real_tables. score_multi_loop p i j) = {Mismatch_multi i j}"
  by (rule reads_of_single) (simp add: score_multi_loop_def)

lemma reads_of_multi_paired: "reads_of (\<lambda>p :: real_tables. score_multi_paired p i j) = {Mismatch_multi j i}"
  by (rule reads_of_single) (simp add: score_multi_paired_def)

lemma reads_of_multi_unpaired: "reads_of (\<lambda>p :: real_tables. score_multi_unpaired p i j) = {Base_multi i j}"
  by (rule reads_of_single) (simp add: score_multi_unpaired_def)

lemma reads_of_external_paired:
  "reads_of (\<lambda>p :: real_tables. score_external_paired p i j) = {Mismatch_external j i}"
  by (rule reads_of_single) (simp add: score_external_paired_def)

lemma reads_of_external_unpaired:
  "reads_of (\<lambda>p :: real_tables. score_external_unpaired p i j) = {Base_external i j}"
  by (rule reads_of_single) (simp add: score_external_unpaired_def)

lemma reads_of_hairpin: "reads_of (\<lambda>p :: real_tables. score_hairpin p i j) = set (hairpin_reads i j)"
  by (rule reads_of_sum) (rule score_hairpin_sum)

lemma reads_of_single_loop:
  "reads_of (\<lambda>p :: real_tables. score_single_loop p i j k l) = set (single_loop_reads i j k l)"
  by (rule reads_of_sum) (rule score_single_loop_sum)

subsection \<open>The three branches of a single loop\<close>

lemma minmax_min_max: "minmax a b = (min a b, max a b)"
  by (auto simp: minmax_def min_def max_def)

lemma single_loop_reads_stack:
  "max (run1 i k) (run2 j l) = 0 \<Longrightarrow> single_loop_reads i j k l = [Helix_stacking i j, Helix_stacking l k]"
  by (simp add: single_loop_reads_def minmax_min_max stack_reads_def)

lemma score_single_loop_cases:
  "score_single_loop p i j k l =
     (let ls = min (run1 i k) (run2 j l); ll = max (run1 i k) (run2 j l)
      in if ll = 0 then score_stack p i j k l
         else if ls = 0 then score_bulge p i j k l ll
         else score_internal p i j k l ls ll)"
  by (simp add: score_single_loop_def minmax_min_max run1_def run2_def Let_def)

lemma count_single_loop_cases:
  "count_single_loop p i j k l v =
     (let ls = min (run1 i k) (run2 j l); ll = max (run1 i k) (run2 j l)
      in if ll = 0 then count_stack p i j k l v
         else if ls = 0 then count_bulge p i j k l ll v
         else count_internal p i j k l ls ll v)"
  by (simp add: count_single_loop_def minmax_min_max run1_def run2_def Let_def)

lemma count_stack_alt:
  "count_stack p i j k l v =
     p\<lparr>count_helix_stacking := add2 (add2 (count_helix_stacking p) i j v) l k v\<rparr>"
  by (simp add: count_stack_def Let_def)

lemma count_bulge_alt:
  "count_bulge p i j k l ll v =
     p\<lparr>count_bulge_length :=
         (if ll \<le> 30 then add1 (count_bulge_length p) ll v else count_bulge_length p),
       count_base_internal :=
         add2 (add2 (count_base_internal p) (i + 1) (k - 1) v) (l + 1) (j - 1) v,
       count_mismatch_internal := add2 (add2 (count_mismatch_internal p) i j v) l k v\<rparr>"
  by (cases "ll \<le> 30") (simp_all add: count_bulge_def Let_def)

lemma count_hairpin_alt:
  "count_hairpin p i j v =
     p\<lparr>count_hairpin_length :=
         (if hairpin_len i j \<le> 30 then add1 (count_hairpin_length p) (hairpin_len i j) v
          else count_hairpin_length p),
       count_base_hairpin := add2 (count_base_hairpin p) (i + 1) (j - 1) v,
       count_mismatch_hairpin := add2 (count_mismatch_hairpin p) i j v\<rparr>"
  by (cases "hairpin_len i j \<le> 30") (simp_all add: count_hairpin_def hairpin_len_def Let_def)

text \<open>Parameter sets that tell the three branches apart.\<close>

lemma score_stack_neq_bulge: "\<exists>p :: real_tables. score_stack p i j k l \<noteq> score_bulge p i j k l ll"
proof -
  let ?p = "(zero_pnn :: real_tables)\<lparr>score_helix_stacking := \<lambda>a b. 1\<rparr>"
  have "score_stack ?p i j k l = 2" by (simp add: score_stack_def)
  moreover have "score_bulge ?p i j k l ll = 0"
    by (simp add: score_bulge_def zero_pnn_def)
  ultimately have "score_stack ?p i j k l \<noteq> score_bulge ?p i j k l ll" by simp
  then show ?thesis ..
qed

lemma score_stack_neq_internal: "\<exists>p :: real_tables. score_stack p i j k l \<noteq> score_internal p i j k l ls ll"
proof -
  let ?p = "(zero_pnn :: real_tables)\<lparr>score_helix_stacking := \<lambda>a b. 1\<rparr>"
  have "score_stack ?p i j k l = 2" by (simp add: score_stack_def)
  moreover have "score_internal ?p i j k l ls ll = 0"
    by (simp add: score_internal_def zero_pnn_def)
  ultimately have "score_stack ?p i j k l \<noteq> score_internal ?p i j k l ls ll" by simp
  then show ?thesis ..
qed

lemma score_bulge_neq_internal:
  "\<exists>p :: real_tables. score_bulge p i j k l ll' \<noteq> score_internal p i j k l ls ll"
proof -
  let ?p = "(zero_pnn :: real_tables)\<lparr>score_internal_asymmetry := \<lambda>a. 1\<rparr>"
  have "score_bulge ?p i j k l ll' = 0" by (simp add: score_bulge_def zero_pnn_def)
  moreover have "score_internal ?p i j k l ls ll = 1"
    by (simp add: score_internal_def zero_pnn_def)
  ultimately have "score_bulge ?p i j k l ll' \<noteq> score_internal ?p i j k l ls ll" by simp
  then show ?thesis ..
qed

lemma add2_twice_pos: "add2 (add2 (\<lambda>a b. 0 :: real) i j 1) l k 1 i j \<noteq> 0"
  by (simp add: add2_def)

lemma count_stack_neq_bulge: "\<exists>(p :: real_tables) v. count_stack p i j k l v \<noteq> count_bulge p i j k l ll v"
proof -
  let ?z = "zero_pnn :: real_tables"
  have "count_mismatch_internal (count_stack ?z i j k l 1) i j = 0"
    by (simp add: count_stack_alt zero_pnn_def)
  moreover have "count_mismatch_internal (count_bulge ?z i j k l ll 1) i j \<noteq> 0"
    by (simp add: count_bulge_alt zero_pnn_def add2_twice_pos)
  ultimately have "count_stack ?z i j k l 1 \<noteq> count_bulge ?z i j k l ll 1"
    by metis
  then show ?thesis by blast
qed

lemma count_stack_neq_internal:
  "\<exists>(p :: real_tables) v. count_stack p i j k l v \<noteq> count_internal p i j k l ls ll v"
proof -
  let ?z = "zero_pnn :: real_tables"
  have "count_mismatch_internal (count_stack ?z i j k l 1) i j = 0"
    by (simp add: count_stack_alt zero_pnn_def)
  moreover have "count_mismatch_internal (count_internal ?z i j k l ls ll 1) i j \<noteq> 0"
    by (simp add: count_internal_alt zero_pnn_def add2_twice_pos)
  ultimately have "count_stack ?z i j k l 1 \<noteq> count_internal ?z i j k l ls ll 1"
    by metis
  then show ?thesis by blast
qed

lemma count_bulge_neq_internal:
  "\<exists>(p :: real_tables) v. count_bulge p i j k l ll' v \<noteq> count_internal p i j k l ls ll v"
proof -
  let ?z = "zero_pnn :: real_tables"
  let ?a = "min_u_int32_t (ll - ls) 28"
  have "count_internal_asymmetry (count_bulge ?z i j k l ll' 1) ?a = 0"
    by (simp add: count_bulge_alt zero_pnn_def)
  moreover have "count_internal_asymmetry (count_internal ?z i j k l ls ll 1) ?a = 1"
    by (simp add: count_internal_alt zero_pnn_def add1_def)
  ultimately have "count_bulge ?z i j k l ll' 1 \<noteq> count_internal ?z i j k l ls ll 1"
    by (metis zero_neq_one)
  then show ?thesis by blast
qed

lemma branch_iff:
  assumes f: "\<And>x. f x = (if c1 then a x else if c2 then b x else c x)"
    and ab: "\<exists>x. a x \<noteq> b x" and ac: "\<exists>x. a x \<noteq> c x" and bc: "\<exists>x. b x \<noteq> c x"
  shows "c1 = (\<forall>x. f x = a x)"
    and "(\<not> c1 \<and> c2) = (\<forall>x. f x = b x)"
    and "(\<not> c1 \<and> \<not> c2) = (\<forall>x. f x = c x)"
proof -
  show "c1 = (\<forall>x. f x = a x)"
  proof (cases c1)
    case True
    then show ?thesis by (simp add: f)
  next
    case False
    then show ?thesis using ab ac by (cases c2; simp add: f; metis)
  qed
  show "(\<not> c1 \<and> c2) = (\<forall>x. f x = b x)"
  proof (cases c1)
    case True
    then show ?thesis using ab by (simp add: f; metis)
  next
    case False
    then show ?thesis using bc by (cases c2; simp add: f; metis)
  qed
  show "(\<not> c1 \<and> \<not> c2) = (\<forall>x. f x = c x)"
  proof (cases c1)
    case True
    then show ?thesis using ac by (simp add: f; metis)
  next
    case False
    then show ?thesis using bc by (cases c2; simp add: f; metis)
  qed
qed

subsection \<open>The entries a count operation writes\<close>

lemma writes_of_at:
  fixes c :: "real_tables \<Rightarrow> real \<Rightarrow> real_tables"
  assumes "\<And>p v e. count_at (c p v) e = (if e \<in> S then count_at p e + v else count_at p e)"
  shows "writes_of c = S"
proof (rule set_eqI)
  fix e
  show "e \<in> writes_of c \<longleftrightarrow> e \<in> S"
  proof
    assume "e \<in> writes_of c"
    then show "e \<in> S"
      by (auto simp add: writes_of_def assms split: if_splits)
  next
    assume "e \<in> S"
    then have "count_at (c zero_pnn 1) e \<noteq> count_at zero_pnn e"
      by (simp add: assms)
    then show "e \<in> writes_of c"
      unfolding writes_of_def by blast
  qed
qed

text \<open>A concrete internal loop, used to exercise the theorems below.\<close>

lemma single_loop_reads_0_9_2_5:
  "single_loop_reads 0 9 2 5 =
     [Internal_length 4, Base_internal 1 1, Base_internal 6 8, Internal_explicit 1 3,
      Internal_asymmetry 2, Mismatch_internal 0 9, Mismatch_internal 5 2]"
  by (simp add: single_loop_reads_def run1_def run2_def minmax_def internal_reads_def
      min_u_int32_t_def)

lemma writes_of_hairpin:
  "writes_of (\<lambda>p :: real_tables. count_hairpin p i j) =
     {e \<in> set (hairpin_reads i j). \<not> skipped e (hairpin_len i j)}"
  by (rule writes_of_at) (simp add: count_hairpin_at)

lemma writes_of_single_loop:
  assumes "i \<noteq> l \<or> j \<noteq> k"
  shows "writes_of (\<lambda>p :: real_tables. count_single_loop p i j k l) =
     {e \<in> set (single_loop_reads i j k l). \<not> skipped e (run1 i k + run2 j l)}"
  by (rule writes_of_at) (simp add: count_single_loop_at [OF assms])

lemma writes_of_multi_loop: "writes_of (\<lambda>p :: real_tables. count_multi_loop p i j) = {Mismatch_multi i j}"
  by (rule writes_of_at) (simp add: count_multi_loop_at)

lemma writes_of_multi_paired: "writes_of (\<lambda>p :: real_tables. count_multi_paired p i j) = {Mismatch_multi j i}"
  by (rule writes_of_at) (simp add: count_multi_paired_at)

lemma writes_of_multi_unpaired: "writes_of (\<lambda>p :: real_tables. count_multi_unpaired p i j) = {Base_multi i j}"
  by (rule writes_of_at) (simp add: count_multi_unpaired_at)

lemma writes_of_external_paired:
  "writes_of (\<lambda>p :: real_tables. count_external_paired p i j) = {Mismatch_external j i}"
  by (rule writes_of_at) (simp add: count_external_paired_at)

lemma writes_of_external_unpaired:
  "writes_of (\<lambda>p :: real_tables. count_external_unpaired p i j) = {Base_external i j}"
  by (rule writes_of_at) (simp add: count_external_unpaired_at)

subsection \<open>Clamps of lengths that fit the narrow type\<close>

lemma unat_min_size_t: "unat (min (a :: size_t) b) = min (unat a) (unat b)"
  by (simp add: min_def word_le_nat_alt)

lemma min_u_int32_t_fits:
  assumes "(a :: size_t) < 2 ^ 32"
  shows "min_u_int32_t a b = min a (ucast b)"
proof -
  have "unat a < 2 ^ 32" using assms by (simp add: word_less_nat_alt)
  then have m: "unat a mod 2 ^ 32 = unat a" by simp
  show ?thesis
    by (rule word_unat_eq_iff [THEN iffD2])
      (simp only: unat_min_u_int32_t unat_min_size_t unat_widen32 m)
qed

lemma score_hairpin_eq:
  "score_hairpin p i j =
     score_hairpin_length p (min_u_int32_t (hairpin_len i j) 30)
       + score_base_hairpin p (i + 1) (j - 1) + score_mismatch_hairpin p i j"
  for p :: "real_tables"
  by (simp add: score_hairpin_def hairpin_len_def Let_def)

lemma score_internal_eq:
  "score_internal p i j k l ls ll =
     score_internal_length p (min_u_int32_t (ls + ll) 30) + score_base_internal p (i + 1) (k - 1)
       + score_base_internal p (l + 1) (j - 1)
       + score_internal_explicit p (min_u_int32_t ls 4) (min_u_int32_t ll 4)
       + (if ls = ll then score_internal_symmetry p (min_u_int32_t ll 15) else 0)
       + score_internal_asymmetry p (min_u_int32_t (ll - ls) 28)
       + score_mismatch_internal p i j + score_mismatch_internal p l k"
  for p :: "real_tables"
  by (simp add: score_internal_def Let_def)

subsection \<open>The length tables\<close>




lemma single_loop_reads_cases:
  "single_loop_reads i j k l =
     (let ls = min (run1 i k) (run2 j l); ll = max (run1 i k) (run2 j l)
      in if ll = 0 then stack_reads i j k l
         else if ls = 0 then bulge_reads i j k l ll
         else internal_reads i j k l ls ll)"
  by (simp add: single_loop_reads_def minmax_min_max Let_def)

lemma hairpin_length_read:
  "(Hairpin_length n \<in> reads_of (\<lambda>q :: real_tables. score_hairpin q i j)) =
     (n = min_u_int32_t (hairpin_len i j) 30)"
  by (auto simp add: reads_of_hairpin hairpin_reads_def)

lemma bulge_length_read:
  assumes "max (run1 i k) (run2 j l) \<noteq> 0" and "min (run1 i k) (run2 j l) = 0"
  shows "(Bulge_length n \<in> reads_of (\<lambda>q :: real_tables. score_single_loop q i j k l)) =
     (n = min_u_int16_t (max (run1 i k) (run2 j l)) 30)"
  using assms
  by (auto simp add: reads_of_single_loop single_loop_reads_cases bulge_reads_def Let_def)

lemma internal_length_read:
  assumes "min (run1 i k) (run2 j l) \<noteq> 0"
  shows "(Internal_length n \<in> reads_of (\<lambda>q :: real_tables. score_single_loop q i j k l)) =
     (n = min_u_int32_t (min (run1 i k) (run2 j l) + max (run1 i k) (run2 j l)) 30)"
proof -
  have "max (run1 i k) (run2 j l) \<noteq> 0"
    using assms by (auto simp add: min_def max_def split: if_splits)
  then show ?thesis
    using assms
    by (auto simp add: reads_of_single_loop single_loop_reads_cases internal_reads_def Let_def)
qed

lemma count_bulge_length_eq:
  assumes "max (run1 i k) (run2 j l) \<noteq> 0" and "min (run1 i k) (run2 j l) = 0"
  shows "count_bulge_length (count_single_loop p i j k l v) =
     (if max (run1 i k) (run2 j l) \<le> 30
      then add1 (count_bulge_length p) (max (run1 i k) (run2 j l)) v
      else count_bulge_length p)"
  using assms by (simp add: count_single_loop_cases count_bulge_alt Let_def)

lemma min_u_int16_t_low:
  assumes "unat a mod 2 ^ 16 < 30"
  shows "unat (min_u_int16_t a 30) = unat a mod 2 ^ 16" and "min_u_int16_t a 30 \<noteq> 30"
proof -
  show u: "unat (min_u_int16_t a 30) = unat a mod 2 ^ 16"
    using assms by (simp add: unat_min_u_int16_t)
  show "min_u_int16_t a 30 \<noteq> 30"
  proof
    assume "min_u_int16_t a 30 = 30"
    then have "unat (min_u_int16_t a 30) = 30" by simp
    with u assms show False by simp
  qed
qed

lemma min_u_int16_t_high:
  assumes "30 \<le> unat a mod 2 ^ 16"
  shows "min_u_int16_t a 30 = 30"
  by (rule word_unat_eq_iff [THEN iffD2]) (use assms in \<open>simp add: unat_min_u_int16_t\<close>)

lemma bulge_65566:
  "run1 0 1 = 0" "run2 65569 2 = 65566" "min_u_int16_t 65566 30 = 30"
  "unat (65566 :: size_t) mod 2 ^ 16 = 30"
  by (simp_all add: run1_def run2_def min_u_int16_t_def)

lemma score_bulge_eq:
  "score_bulge p i j k l ll =
     score_bulge_length p (min_u_int16_t ll 30)
       + (score_base_internal p (i + 1) (k - 1) + score_base_internal p (l + 1) (j - 1))
       + (score_mismatch_internal p i j + score_mismatch_internal p l k)"
  by (simp add: score_bulge_def Let_def)

lemma unat_gap:
  fixes a b :: size_t
  assumes "a < b"
  shows "unat (b - a - 1) = unat b - unat a - 1"
proof -
  have lt: "unat a < unat b" using assms by (simp add: word_less_nat_alt)
  have le: "a \<le> b" using assms by simp
  have d: "unat (b - a) = unat b - unat a" using le by (rule unat_sub)
  have "unat (1 :: size_t) \<le> unat (b - a)" using lt d by simp
  then have "1 \<le> b - a" by (simp add: word_le_nat_alt)
  then have "unat (b - a - 1) = unat (b - a) - unat (1 :: size_t)" by (rule unat_sub)
  then show ?thesis by (simp add: d)
qed

lemma hairpin_len_fits:
  assumes "i < j" and "j < 2 ^ 32"
  shows "hairpin_len i j < 2 ^ 32"
proof -
  have "hairpin_len i j = j - i - 1" by (simp add: hairpin_len_def)
  then have "unat (hairpin_len i j) = unat j - unat i - 1"
    using unat_gap [OF assms(1)] by simp
  moreover have "unat j < 2 ^ 32" using assms(2) by (simp add: word_less_nat_alt)
  ultimately have "unat (hairpin_len i j) < 2 ^ 32" by simp
  then show ?thesis by (simp add: word_less_nat_alt)
qed

lemma runs_fit:
  assumes "wf_single_loop i j k l" and "j < 2 ^ 32"
  shows "unat (run1 i k) + unat (run2 j l) < 2 ^ 32"
proof -
  have o: "i < k" "k \<le> l" "l < j" using assms(1) by (simp_all add: wf_single_loop_def)
  have "run1 i k = k - i - 1" "run2 j l = j - l - 1" by (simp_all add: run1_def run2_def)
  then have u: "unat (run1 i k) = unat k - unat i - 1" "unat (run2 j l) = unat j - unat l - 1"
    using unat_gap [OF o(1)] unat_gap [OF o(3)] by simp_all
  have n: "unat i < unat k" "unat k \<le> unat l" "unat l < unat j"
    using o by (simp_all add: word_less_nat_alt word_le_nat_alt)
  have "unat j < 2 ^ 32" using assms(2) by (simp add: word_less_nat_alt)
  then show ?thesis using n by (simp add: u)
qed

lemma min_max_fit:
  fixes a b :: size_t
  assumes "unat a + unat b < 2 ^ 32"
  shows "max a b < 2 ^ 32" and "min a b + max a b < 2 ^ 32"
proof -
  have a: "unat a < 2 ^ 32" and b: "unat b < 2 ^ 32" using assms by simp_all
  show "max a b < 2 ^ 32"
    using a b by (simp add: max_def word_less_nat_alt)
  have s: "min a b + max a b = a + b" by (simp add: min_def max_def add.commute)
  have "unat (a + b) \<le> unat a + unat b" by (simp add: unat_word_ariths)
  then have "unat (a + b) < 2 ^ 32" using assms by simp
  then show "min a b + max a b < 2 ^ 32" by (simp add: s word_less_nat_alt)
qed

text \<open>
  Two successive counts add their weights one after the other, whatever the addition of
  \<open>ScoreType\<close> is; that the result is the old value plus \<open>v1 + v2\<close> is a further
  property of that addition (its associativity).
\<close>

lemma count_hairpin_twice:
  "count_mismatch_hairpin (count_hairpin (count_hairpin p i j v1) i j v2) i j =
     (count_mismatch_hairpin p i j + v1) + v2"
  by (simp add: count_hairpin_alt add2_def)

lemma score_internal_full_width:
  fixes p :: real_tables
  assumes "ls \<le> ll" and "ll < 2 ^ 32" and "ls + ll < 2 ^ 32"
  shows "score_internal p i j k l ls ll =
     score_internal_length p (min (ls + ll) 30) + score_base_internal p (i + 1) (k - 1)
       + score_base_internal p (l + 1) (j - 1)
       + score_internal_explicit p (min ls 4) (min ll 4)
       + (if ls = ll then score_internal_symmetry p (min ll 15) else 0)
       + score_internal_asymmetry p (min (ll - ls) 28)
       + score_mismatch_internal p i j + score_mismatch_internal p l k"
proof -
  have a: "ls < 2 ^ 32" using assms(1,2) by (rule le_less_trans)
  have "ll - ls \<le> ll" using assms(1) by (simp add: word_sub_le)
  then have b: "ll - ls < 2 ^ 32" using assms(2) by (rule le_less_trans)
  show ?thesis
    unfolding score_internal_eq
    by (simp only: min_u_int32_t_fits [OF a] min_u_int32_t_fits [OF b]
        min_u_int32_t_fits [OF assms(2)] min_u_int32_t_fits [OF assms(3)])
      simp
qed

lemma bulge_65536:
  "run1 0 1 = 0" "run2 65539 2 = 65536" "min_u_int16_t 65536 30 = 0"
  "hairpin_len 0 65537 = 65536" "min_u_int32_t 65536 30 = 30"
  by (simp_all add: run1_def run2_def hairpin_len_def min_u_int16_t_def min_u_int32_t_def)

section \<open>The claims\<close>

text \<open>
  In the theorems below a table \<open>p\<close> whose type is left open stands for tables over any
  \<open>ScoreType\<close>; tables of reals (\<open>real_tables\<close>) appear where the value of a score or
  the entries it reads (\<open>reads_of\<close>) are concerned.
\<close>

text \<open>
  C1. For every loop kind and well-formed arguments, the count operation adds \<open>v\<close> to
  exactly the entries its scoring counterpart reads and leaves every other entry of every
  count table, and every score table, as it was; as sets, the entries written are the
  entries read. The one exception is the skip on the three length tables: an entry of
  \<open>hairpin_length\<close>, \<open>bulge_length\<close> or \<open>internal_length\<close> that the score reads
  is left alone by the count when the unclamped length exceeds 30. For a single loop the
  unclamped length is the sum of the two unpaired runs (the longer run itself in a bulge,
  whose shorter run is 0).
\<close>

theorem count_mirrors_score:
  assumes "wf_single_loop a b k l"
  shows
    "count_at (count_hairpin p i j v) e =
       (if e \<in> reads_of (\<lambda>q :: real_tables. score_hairpin q i j) \<and> \<not> skipped e (hairpin_len i j)
        then count_at p e + v else count_at p e)
     \<and> score_at (count_hairpin p i j v) e = score_at p e
     \<and> writes_of (\<lambda>q :: real_tables. count_hairpin q i j) =
       {x \<in> reads_of (\<lambda>q :: real_tables. score_hairpin q i j). \<not> skipped x (hairpin_len i j)}
     \<and> count_at (count_single_loop p a b k l v) e =
       (if e \<in> reads_of (\<lambda>q :: real_tables. score_single_loop q a b k l) \<and> \<not> skipped e (run1 a k + run2 b l)
        then count_at p e + v else count_at p e)
     \<and> score_at (count_single_loop p a b k l v) e = score_at p e
     \<and> writes_of (\<lambda>q :: real_tables. count_single_loop q a b k l) =
       {x \<in> reads_of (\<lambda>q :: real_tables. score_single_loop q a b k l). \<not> skipped x (run1 a k + run2 b l)}
     \<and> count_at (count_multi_loop p i j v) e =
       (if e \<in> reads_of (\<lambda>q :: real_tables. score_multi_loop q i j)
        then count_at p e + v else count_at p e)
     \<and> score_at (count_multi_loop p i j v) e = score_at p e
     \<and> writes_of (\<lambda>q :: real_tables. count_multi_loop q i j) = reads_of (\<lambda>q :: real_tables. score_multi_loop q i j)
     \<and> count_at (count_multi_paired p i j v) e =
       (if e \<in> reads_of (\<lambda>q :: real_tables. score_multi_paired q i j)
        then count_at p e + v else count_at p e)
     \<and> score_at (count_multi_paired p i j v) e = score_at p e
     \<and> writes_of (\<lambda>q :: real_tables. count_multi_paired q i j) = reads_of (\<lambda>q :: real_tables. score_multi_paired q i j)
     \<and> count_at (count_multi_unpaired p i j v) e =
       (if e \<in> reads_of (\<lambda>q :: real_tables. score_multi_unpaired q i j)
        then count_at p e + v else count_at p e)
     \<and> score_at (count_multi_unpaired p i j v) e = score_at p e
     \<and> writes_of (\<lambda>q :: real_tables. count_multi_unpaired q i j) = reads_of (\<lambda>q :: real_tables. score_multi_unpaired q i j)
     \<and> count_at (count_external_paired p i j v) e =
       (if e \<in> reads_of (\<lambda>q :: real_tables. score_external_paired q i j)
        then count_at p e + v else count_at p e)
     \<and> score_at (count_external_paired p i j v) e = score_at p e
     \<and> writes_of (\<lambda>q :: real_tables. count_external_paired q i j) = reads_of (\<lambda>q :: real_tables. score_external_paired q i j)
     \<and> count_at (count_external_unpaired p i j v) e =
       (if e \<in> reads_of (\<lambda>q :: real_tables. score_external_unpaired q i j)
        then count_at p e + v else count_at p e)
     \<and> score_at (count_external_unpaired p i j v) e = score_at p e
     \<and> writes_of (\<lambda>q :: real_tables. count_external_unpaired q i j) = reads_of (\<lambda>q :: real_tables. score_external_unpaired q i j)"
proof -
  have d: "a \<noteq> l \<or> b \<noteq> k"
    using assms by (rule wf_single_loop_distinct)
  show ?thesis
    unfolding reads_of_hairpin reads_of_single_loop reads_of_multi_loop reads_of_multi_paired
      reads_of_multi_unpaired reads_of_external_paired reads_of_external_unpaired
    using count_hairpin_at [of p i j v e] score_at_count_hairpin [of p i j v e]
      writes_of_hairpin [of i j]
      count_single_loop_at [OF d, of p v e] score_at_count_single_loop [of p a b k l v e]
      writes_of_single_loop [OF d]
      count_multi_loop_at [of p i j v e] score_at_count_multi_loop [of p i j v e]
      writes_of_multi_loop [of i j]
      count_multi_paired_at [of p i j v e] score_at_count_multi_paired [of p i j v e]
      writes_of_multi_paired [of i j]
      count_multi_unpaired_at [of p i j v e] score_at_count_multi_unpaired [of p i j v e]
      writes_of_multi_unpaired [of i j]
      count_external_paired_at [of p i j v e] score_at_count_external_paired [of p i j v e]
      writes_of_external_paired [of i j]
      count_external_unpaired_at [of p i j v e] score_at_count_external_unpaired [of p i j v e]
      writes_of_external_unpaired [of i j]
    by simp
qed

theorem count_mirrors_score_witness:
  "wf_single_loop 0 9 2 5
   \<and> count_at (count_single_loop zero_pnn 0 9 2 5 1) (Internal_length 4) = 1
   \<and> count_at (count_single_loop zero_pnn 0 9 2 5 1) (Internal_length 30) = 0
   \<and> count_at (count_single_loop zero_pnn 0 9 2 5 1) (Mismatch_internal 5 2) = 1
   \<and> count_at (count_single_loop zero_pnn 0 9 2 5 1) (Mismatch_internal 2 5) = 0"
proof -
  have wf: "wf_single_loop 0 9 2 5" by (simp add: wf_single_loop_def)
  have sk: "\<not> skipped e (run1 0 2 + run2 9 5)" for e
    by (simp add: skipped_def run1_def run2_def)
  note c = count_mirrors_score [OF wf, THEN conjunct2, THEN conjunct2, THEN conjunct2,
      THEN conjunct1]
  show ?thesis
    using wf c [of zero_pnn 1 "Internal_length 4"] c [of zero_pnn 1 "Internal_length 30"]
      c [of zero_pnn 1 "Mismatch_internal 5 2"] c [of zero_pnn 1 "Mismatch_internal 2 5"]
    by (simp add: reads_of_single_loop single_loop_reads_0_9_2_5 sk zero_pnn_def)
qed

text \<open>
  C2. The claim: for \<open>hairpin_length\<close>, \<open>bulge_length\<close> and \<open>internal_length\<close>, a
  raw length above 30 is scored from the ceiling bucket 30 while the count leaves the length
  table alone. The bulge branch of \<open>score_single_loop\<close> departs from it: it clamps with
  \<open>std::min<u_int16_t>\<close> where every other clamp, the disabled count branch on the same
  table included, uses \<open>std::min<u_int32_t>\<close>. For the well-formed bulge \<open>i = 0\<close>,
  \<open>k = 1\<close>, \<open>l = 2\<close>, \<open>j = 65539\<close> of length \<open>ll = 2^16\<close> the score does not
  include \<open>bulge_length[30]\<close> and includes \<open>bulge_length[0]\<close>, while the count, as
  claimed, leaves \<open>bulge_length\<close> untouched; a hairpin of the same length \<open>2^16\<close> is
  scored from \<open>hairpin_length[30]\<close>.
\<close>

theorem bulge_length_slip:
  "wf_single_loop 0 65539 1 2
   \<and> min (run1 0 1) (run2 65539 2) = 0
   \<and> max (run1 0 1) (run2 65539 2) = 65536
   \<and> score_single_loop (poke_score (Bulge_length 30) 1 zero_pnn) 0 65539 1 2 = 0
   \<and> score_single_loop (poke_score (Bulge_length 0) 1 zero_pnn) 0 65539 1 2 = 1
   \<and> count_bulge_length (count_single_loop zero_pnn 0 65539 1 2 1) = count_bulge_length zero_pnn
   \<and> hairpin_len 0 65537 = 65536
   \<and> score_hairpin (poke_score (Hairpin_length 30) 1 zero_pnn) 0 65537 = 1"
proof -
  have s: "score_single_loop (poke_score (Bulge_length 30) 1 zero_pnn) 0 65539 1 2 = 0"
    "score_single_loop (poke_score (Bulge_length 0) 1 zero_pnn) 0 65539 1 2 = 1"
    by (simp_all add: score_single_loop_cases bulge_65536 score_bulge_eq zero_pnn_def)
  have c: "count_bulge_length (count_single_loop zero_pnn 0 65539 1 2 1) =
      count_bulge_length zero_pnn"
    by (simp add: count_single_loop_cases bulge_65536 count_bulge_alt)
  have h: "score_hairpin (poke_score (Hairpin_length 30) 1 zero_pnn) 0 65537 = 1"
    by (simp add: score_hairpin_eq bulge_65536 zero_pnn_def)
  show ?thesis
    using s c h by (simp add: wf_single_loop_def bulge_65536)
qed

text \<open>
  C3. For every closing pair \<open>i < j\<close> of positions that a pairwise table can hold,
  \<open>score_hairpin (i, j)\<close> is
  \<open>hairpin_length[min (l, 30)] + base_hairpin (i+1, j-1) + mismatch_hairpin (i, j)\<close> with
  \<open>l = (j-1) - (i+1) + 1\<close> the unpaired length, and these three entries are all it
  reads; it returns a number and has no table to return, being a \<open>const\<close> member
  function. The positions are those below \<open>2^32\<close>: the operation reads
  \<open>mismatch_hairpin (i, j)\<close>, a table with an entry for every pair of positions, and no
  such table over \<open>2^32\<close> or more positions fits a 64-bit address space.
\<close>

theorem score_hairpin_formula:
  fixes p :: real_tables
  assumes "i < j" and "j < 2 ^ 32"
  shows
    "score_hairpin p i j =
       score_hairpin_length p (min (hairpin_len i j) 30)
         + score_base_hairpin p (i + 1) (j - 1) + score_mismatch_hairpin p i j
     \<and> hairpin_len i j = (j - 1) - (i + 1) + 1
     \<and> reads_of (\<lambda>q :: real_tables. score_hairpin q i j) =
         {Hairpin_length (min (hairpin_len i j) 30), Base_hairpin (i + 1) (j - 1),
          Mismatch_hairpin i j}"
proof -
  have f: "hairpin_len i j < 2 ^ 32"
    using assms by (rule hairpin_len_fits)
  have m: "min_u_int32_t (hairpin_len i j) 30 = min (hairpin_len i j) 30"
    by (simp add: min_u_int32_t_fits [OF f])
  have s: "score_hairpin p i j =
       score_hairpin_length p (min (hairpin_len i j) 30)
         + score_base_hairpin p (i + 1) (j - 1) + score_mismatch_hairpin p i j"
    by (simp add: score_hairpin_eq m)
  have l: "hairpin_len i j = (j - 1) - (i + 1) + 1"
    by (simp add: hairpin_len_def)
  have r: "reads_of (\<lambda>q :: real_tables. score_hairpin q i j) =
         {Hairpin_length (min (hairpin_len i j) 30), Base_hairpin (i + 1) (j - 1),
          Mismatch_hairpin i j}"
    by (simp add: reads_of_hairpin hairpin_reads_def m)
  show ?thesis
    using s l r by (intro conjI) assumption+
qed

theorem score_hairpin_formula_witness:
  "(2 :: size_t) < 10 \<and> (10 :: size_t) < 2 ^ 32
   \<and> hairpin_len 2 10 = 7
   \<and> score_hairpin (poke_score (Hairpin_length 7) 5 zero_pnn) 2 10 = 5
   \<and> score_hairpin (poke_score (Hairpin_length 30) 5 zero_pnn) 0 46 = 5
   \<and> score_hairpin (poke_score (Base_hairpin 3 9) 5 zero_pnn) 2 10 = 5
   \<and> score_hairpin (poke_score (Mismatch_hairpin 2 10) 5 zero_pnn) 2 10 = 5
   \<and> score_hairpin (poke_score (Mismatch_hairpin 10 2) 5 zero_pnn) 2 10 = 0"
proof -
  have h: "(2 :: size_t) < 10" "(10 :: size_t) < 2 ^ 32" by simp_all
  have h': "(0 :: size_t) < 46" "(46 :: size_t) < 2 ^ 32" by simp_all
  have l: "hairpin_len 2 10 = 7" "hairpin_len 0 46 = 45" by (simp_all add: hairpin_len_def)
  note t = score_hairpin_formula [OF h, THEN conjunct1]
  note t' = score_hairpin_formula [OF h', THEN conjunct1]
  have z: "score_hairpin_length zero_pnn a = 0" "score_base_hairpin zero_pnn a b = 0"
    "score_mismatch_hairpin zero_pnn a b = 0" for a b
    by (simp_all add: zero_pnn_def)
  show ?thesis
    using h
    by (simp add: t t' l z)
qed

text \<open>
  C4. With \<open>ls\<close> the shorter and \<open>ll\<close> the longer of the two unpaired runs,
  \<open>score_single_loop\<close> and \<open>count_single_loop\<close> take the stack branch exactly when
  \<open>ll = 0\<close> (then the score is \<open>helix_stacking (i, j) + helix_stacking (l, k)\<close> and
  the count adds \<open>v\<close> to these two entries), the bulge branch exactly when
  \<open>ll \<noteq> 0\<close> and \<open>ls = 0\<close>, and the internal-loop branch exactly when both are
  non-zero. Each equivalence is stated for the score and for the count with the same
  condition, so the two operations classify alike; a branch is recognised by the operation
  behaving as that branch on every parameter set. Since \<open>ll = 0\<close> is tested first,
  \<open>ls = ll = 0\<close> is a stack and is not treated as a bulge.
\<close>

theorem single_loop_classification:
  fixes i j k l :: size_t
  defines "ls \<equiv> min (run1 i k) (run2 j l)" and "ll \<equiv> max (run1 i k) (run2 j l)"
  shows
    "(ll = 0) =
       (\<forall>p :: real_tables. score_single_loop p i j k l = score_helix_stacking p i j + score_helix_stacking p l k)
     \<and> (ll = 0) =
       (\<forall>(p :: real_tables) v. count_single_loop p i j k l v =
          p\<lparr>count_helix_stacking := add2 (add2 (count_helix_stacking p) i j v) l k v\<rparr>)
     \<and> (ll \<noteq> 0 \<and> ls = 0) = (\<forall>p :: real_tables. score_single_loop p i j k l = score_bulge p i j k l ll)
     \<and> (ll \<noteq> 0 \<and> ls = 0) =
       (\<forall>(p :: real_tables) v. count_single_loop p i j k l v = count_bulge p i j k l ll v)
     \<and> (ll \<noteq> 0 \<and> ls \<noteq> 0) =
       (\<forall>p :: real_tables. score_single_loop p i j k l = score_internal p i j k l ls ll)
     \<and> (ll \<noteq> 0 \<and> ls \<noteq> 0) =
       (\<forall>(p :: real_tables) v. count_single_loop p i j k l v = count_internal p i j k l ls ll v)
     \<and> (ls = 0 \<and> ll = 0 \<longrightarrow>
          (\<forall>p :: real_tables. score_single_loop p i j k l = score_stack p i j k l)
          \<and> (\<forall>(p :: real_tables) v. count_single_loop p i j k l v = count_stack p i j k l v)
          \<and> \<not> (\<forall>p :: real_tables. score_single_loop p i j k l = score_bulge p i j k l ll)
          \<and> \<not> (\<forall>(p :: real_tables) v. count_single_loop p i j k l v = count_bulge p i j k l ll v))"
proof -
  have sc: "score_single_loop p i j k l =
      (if ll = 0 then score_stack p i j k l
       else if ls = 0 then score_bulge p i j k l ll
       else score_internal p i j k l ls ll)" for p :: real_tables
    by (simp add: score_single_loop_cases ls_def ll_def Let_def)
  have cn: "count_single_loop p i j k l v =
      (if ll = 0 then count_stack p i j k l v
       else if ls = 0 then count_bulge p i j k l ll v
       else count_internal p i j k l ls ll v)" for p :: real_tables and v
    by (simp add: count_single_loop_cases ls_def ll_def Let_def)
  note s = branch_iff [of "\<lambda>p :: real_tables. score_single_loop p i j k l" "ll = 0"
      "\<lambda>p :: real_tables. score_stack p i j k l" "ls = 0"
      "\<lambda>p :: real_tables. score_bulge p i j k l ll"
      "\<lambda>p :: real_tables. score_internal p i j k l ls ll", OF sc score_stack_neq_bulge
      score_stack_neq_internal score_bulge_neq_internal]
  have cn': "(case x of (p, v) \<Rightarrow> count_single_loop p i j k l v) =
      (if ll = 0 then (case x of (p, v) \<Rightarrow> count_stack p i j k l v)
       else if ls = 0 then (case x of (p, v) \<Rightarrow> count_bulge p i j k l ll v)
       else (case x of (p, v) \<Rightarrow> count_internal p i j k l ls ll v))"
    for x :: "real_tables \<times> real"
    by (cases x) (simp add: cn)
  have n1: "\<exists>x :: real_tables \<times> real. (case x of (p, v) \<Rightarrow> count_stack p i j k l v) \<noteq>
       (case x of (p, v) \<Rightarrow> count_bulge p i j k l ll v)"
    using count_stack_neq_bulge [of i j k l ll] by auto
  have n2: "\<exists>x :: real_tables \<times> real. (case x of (p, v) \<Rightarrow> count_stack p i j k l v) \<noteq>
       (case x of (p, v) \<Rightarrow> count_internal p i j k l ls ll v)"
    using count_stack_neq_internal [of i j k l ls ll] by auto
  have n3: "\<exists>x :: real_tables \<times> real. (case x of (p, v) \<Rightarrow> count_bulge p i j k l ll v) \<noteq>
       (case x of (p, v) \<Rightarrow> count_internal p i j k l ls ll v)"
    using count_bulge_neq_internal [of i j k l ll ls ll] by auto
  note c = branch_iff [of "\<lambda>(p :: real_tables, v). count_single_loop p i j k l v" "ll = 0"
      "\<lambda>(p :: real_tables, v). count_stack p i j k l v" "ls = 0" "\<lambda>(p :: real_tables, v). count_bulge p i j k l ll v"
      "\<lambda>(p :: real_tables, v). count_internal p i j k l ls ll v", OF cn' n1 n2 n3]
  have s1: "(ll = 0) = (\<forall>p :: real_tables. score_single_loop p i j k l = score_stack p i j k l)"
    by (rule s(1))
  have c1: "(ll = 0) = (\<forall>(p :: real_tables) v. count_single_loop p i j k l v = count_stack p i j k l v)"
    using c(1) by simp
  have s2: "(ll \<noteq> 0 \<and> ls = 0) = (\<forall>p :: real_tables. score_single_loop p i j k l = score_bulge p i j k l ll)"
    by (rule s(2))
  have c2: "(ll \<noteq> 0 \<and> ls = 0) =
       (\<forall>(p :: real_tables) v. count_single_loop p i j k l v = count_bulge p i j k l ll v)"
    using c(2) by simp
  have s3: "(ll \<noteq> 0 \<and> ls \<noteq> 0) =
       (\<forall>p :: real_tables. score_single_loop p i j k l = score_internal p i j k l ls ll)"
    by (rule s(3))
  have c3: "(ll \<noteq> 0 \<and> ls \<noteq> 0) =
       (\<forall>(p :: real_tables) v. count_single_loop p i j k l v = count_internal p i j k l ls ll v)"
    using c(3) by simp
  have t: "ls = 0 \<and> ll = 0 \<longrightarrow>
          (\<forall>p :: real_tables. score_single_loop p i j k l = score_stack p i j k l)
          \<and> (\<forall>(p :: real_tables) v. count_single_loop p i j k l v = count_stack p i j k l v)
          \<and> \<not> (\<forall>p :: real_tables. score_single_loop p i j k l = score_bulge p i j k l ll)
          \<and> \<not> (\<forall>(p :: real_tables) v. count_single_loop p i j k l v = count_bulge p i j k l ll v)"
    using s1 c1 s2 c2 by blast
  show ?thesis
    using s1 [unfolded score_stack_def] c1 [unfolded count_stack_alt] s2 c2 s3 c3 t
    by (intro conjI) assumption+
qed

theorem single_loop_classification_witness:
  "min (run1 3 4) (run2 8 7) = 0 \<and> max (run1 3 4) (run2 8 7) = 0
   \<and> (\<forall>p :: real_tables. score_single_loop p 3 8 4 7 = score_stack p 3 8 4 7)
   \<and> (\<forall>(p :: real_tables) v. count_single_loop p 3 8 4 7 v = count_stack p 3 8 4 7 v)
   \<and> \<not> (\<forall>p :: real_tables. score_single_loop p 3 8 4 7 = score_bulge p 3 8 4 7 0)
   \<and> \<not> (\<forall>(p :: real_tables) v. count_single_loop p 3 8 4 7 v = count_bulge p 3 8 4 7 0 v)"
proof -
  have h: "min (run1 3 4) (run2 8 7) = 0 \<and> max (run1 3 4) (run2 8 7) = 0"
    by (simp add: run1_def run2_def)
  note t = single_loop_classification [where i = 3 and j = 8 and k = 4 and l = 7,
      THEN conjunct2, THEN conjunct2, THEN conjunct2, THEN conjunct2, THEN conjunct2,
      THEN conjunct2]
  have m: "max (run1 3 4) (run2 8 7) = 0" using h by simp
  show ?thesis
    using t h unfolding m by blast
qed

text \<open>
  C5. For every well-formed \<open>(i, j, k, l)\<close> of positions that a pairwise table can hold
  (below \<open>2^32\<close>, as for C3) classified as an internal loop (\<open>ls > 0\<close>, hence
  \<open>ll > 0\<close>), \<open>score_single_loop\<close> is
  \<open>internal_length[min (ls+ll, 30)] + base_internal (i+1, k-1) + base_internal (l+1, j-1)
  + internal_explicit[min (ls, 4)][min (ll, 4)] + (internal_symmetry[min (ll, 15)] if ls = ll)
  + internal_asymmetry[min (ll-ls, 28)] + mismatch_internal (i, j) + mismatch_internal (l, k)\<close>,
  and \<open>count_single_loop\<close> adds \<open>v\<close> once to \<open>internal_symmetry[min (ll, 15)]\<close> when
  \<open>ls = ll\<close> and leaves the whole \<open>internal_symmetry\<close> table alone when
  \<open>ls \<noteq> ll\<close>.
\<close>

theorem internal_loop_formula:
  fixes p :: real_tables and i j k l :: size_t
  defines "ls \<equiv> min (run1 i k) (run2 j l)" and "ll \<equiv> max (run1 i k) (run2 j l)"
  assumes "wf_single_loop i j k l" and "j < 2 ^ 32" and "ls \<noteq> 0"
  shows
    "score_single_loop p i j k l =
       score_internal_length p (min (ls + ll) 30)
         + score_base_internal p (i + 1) (k - 1) + score_base_internal p (l + 1) (j - 1)
         + score_internal_explicit p (min ls 4) (min ll 4)
         + (if ls = ll then score_internal_symmetry p (min ll 15) else 0)
         + score_internal_asymmetry p (min (ll - ls) 28)
         + score_mismatch_internal p i j + score_mismatch_internal p l k
     \<and> count_internal_symmetry (count_single_loop p i j k l v) =
         (if ls = ll
          then (count_internal_symmetry p)
                 (min ll 15 := count_internal_symmetry p (min ll 15) + v)
          else count_internal_symmetry p)"
proof -
  have le: "ls \<le> ll" by (simp add: ls_def ll_def min_le_iff_disj le_max_iff_disj)
  have nz: "ll \<noteq> 0" using assms(5) le by auto
  have fit: "unat (run1 i k) + unat (run2 j l) < 2 ^ 32"
    using assms(3,4) by (rule runs_fit)
  have b1: "ll < 2 ^ 32" unfolding ll_def using fit by (rule min_max_fit(1))
  have b2: "ls + ll < 2 ^ 32" unfolding ls_def ll_def using fit by (rule min_max_fit(2))
  have s: "score_single_loop p i j k l = score_internal p i j k l ls ll"
    using assms(5) nz by (simp add: score_single_loop_cases ls_def ll_def Let_def)
  have c: "count_single_loop p i j k l v = count_internal p i j k l ls ll v"
    using assms(5) nz by (simp add: count_single_loop_cases ls_def ll_def Let_def)
  have m: "min_u_int32_t ll 15 = min ll 15"
    by (simp add: min_u_int32_t_fits [OF b1])
  have cs: "count_internal_symmetry (count_single_loop p i j k l v) =
         (if ls = ll
          then (count_internal_symmetry p)
                 (min ll 15 := count_internal_symmetry p (min ll 15) + v)
          else count_internal_symmetry p)"
    by (simp add: c count_internal_alt m add1_def)
  show ?thesis
    using s [unfolded score_internal_full_width [OF le b1 b2]] cs
    by (intro conjI) assumption+
qed

theorem internal_loop_formula_witness:
  "wf_single_loop 0 18 8 10 \<and> wf_single_loop 0 22 6 12 \<and> (18 :: size_t) < 2 ^ 32
   \<and> (22 :: size_t) < 2 ^ 32
   \<and> min (run1 0 8) (run2 18 10) = 7 \<and> max (run1 0 8) (run2 18 10) = 7
   \<and> min (run1 0 6) (run2 22 12) = 5 \<and> max (run1 0 6) (run2 22 12) = 9
   \<and> score_single_loop (poke_score (Internal_symmetry 7) 3 zero_pnn) 0 18 8 10 = 3
   \<and> count_internal_symmetry (count_single_loop zero_pnn 0 18 8 10 1) 7 = 1
   \<and> score_single_loop (poke_score (Internal_symmetry 7) 3 zero_pnn) 0 22 6 12 = 0
   \<and> score_single_loop (poke_score (Internal_symmetry 9) 3 zero_pnn) 0 22 6 12 = 0
   \<and> count_internal_symmetry (count_single_loop zero_pnn 0 22 6 12 1) = count_internal_symmetry zero_pnn
   \<and> score_single_loop (poke_score (Internal_explicit 4 4) 3 zero_pnn) 0 22 6 12 = 3
   \<and> score_single_loop (poke_score (Internal_asymmetry 4) 3 zero_pnn) 0 22 6 12 = 3"
proof -
  have r: "run1 0 8 = 7" "run2 18 10 = 7" "run1 0 6 = 5" "run2 22 12 = 9"
    by (simp_all add: run1_def run2_def)
  have w: "wf_single_loop 0 18 8 10" "wf_single_loop 0 22 6 12"
    by (simp_all add: wf_single_loop_def)
  have b: "(18 :: size_t) < 2 ^ 32" "(22 :: size_t) < 2 ^ 32" by simp_all
  have n: "min (run1 0 8) (run2 18 10) \<noteq> 0" "min (run1 0 6) (run2 22 12) \<noteq> 0"
    by (simp_all add: r)
  note t1 = internal_loop_formula [OF w(1) b(1) n(1)]
  note t2 = internal_loop_formula [OF w(2) b(2) n(2)]
  have z: "count_internal_symmetry zero_pnn a = 0" for a by (simp add: zero_pnn_def)
  have s1: "score_single_loop (poke_score (Internal_symmetry 7) 3 zero_pnn) 0 18 8 10 = 3"
    by (simp add: t1 [THEN conjunct1] r zero_pnn_def)
  have c1: "count_internal_symmetry (count_single_loop zero_pnn 0 18 8 10 1) 7 = 1"
    by (simp add: t1 [THEN conjunct2] r z)
  have s2: "score_single_loop (poke_score (Internal_symmetry 7) 3 zero_pnn) 0 22 6 12 = 0"
    "score_single_loop (poke_score (Internal_symmetry 9) 3 zero_pnn) 0 22 6 12 = 0"
    "score_single_loop (poke_score (Internal_explicit 4 4) 3 zero_pnn) 0 22 6 12 = 3"
    "score_single_loop (poke_score (Internal_asymmetry 4) 3 zero_pnn) 0 22 6 12 = 3"
    by (simp_all add: t2 [THEN conjunct1] r zero_pnn_def)
  have c2: "count_internal_symmetry (count_single_loop zero_pnn 0 22 6 12 1) =
      count_internal_symmetry zero_pnn"
    by (simp add: t2 [THEN conjunct2] r)
  show ?thesis
    using w s1 c1 s2 c2 by (simp add: r)
qed

text \<open>
  C7. \<open>score_multi_paired (i, j)\<close> is the entry \<open>mismatch_multi (j, i)\<close>, hence equal to
  \<open>score_multi_loop (j, i)\<close>, and \<open>score_external_paired (i, j)\<close> is the entry
  \<open>mismatch_external (j, i)\<close>: the paired operations read their table transposed. The
  two entries are the only ones the operations read, and \<open>count_multi_paired (i, j, v)\<close>
  and \<open>count_external_paired (i, j, v)\<close> add \<open>v\<close> to exactly these transposed entries
  and change no other entry of any table.
\<close>

theorem transposed_access:
  "score_multi_paired p i j = score_mismatch_multi p j i
   \<and> score_multi_paired p i j = score_multi_loop p j i
   \<and> score_external_paired p i j = score_mismatch_external p j i
   \<and> reads_of (\<lambda>q :: real_tables. score_multi_paired q i j) = {Mismatch_multi j i}
   \<and> reads_of (\<lambda>q :: real_tables. score_multi_loop q j i) = {Mismatch_multi j i}
   \<and> reads_of (\<lambda>q :: real_tables. score_external_paired q i j) = {Mismatch_external j i}
   \<and> count_at (count_multi_paired p i j v) e =
        (if e = Mismatch_multi j i then count_at p e + v else count_at p e)
   \<and> count_at (count_external_paired p i j v) e =
        (if e = Mismatch_external j i then count_at p e + v else count_at p e)
   \<and> score_at (count_multi_paired p i j v) e = score_at p e
   \<and> score_at (count_external_paired p i j v) e = score_at p e
   \<and> count_multi_paired p i j v = count_multi_loop p j i v"
proof -
  have s1: "score_multi_paired p i j = score_mismatch_multi p j i"
    by (simp add: score_multi_paired_def)
  have s2: "score_multi_paired p i j = score_multi_loop p j i"
    by (simp add: score_multi_paired_def score_multi_loop_def)
  have s3: "score_external_paired p i j = score_mismatch_external p j i"
    by (simp add: score_external_paired_def)
  have c: "count_multi_paired p i j v = count_multi_loop p j i v"
    by (simp add: count_multi_paired_def count_multi_loop_def)
  show ?thesis
    using s1 s2 s3 c reads_of_multi_paired [of i j] reads_of_multi_loop [of j i]
      reads_of_external_paired [of i j] count_multi_paired_at [of p i j v e]
      count_external_paired_at [of p i j v e] score_at_count_multi_paired [of p i j v e]
      score_at_count_external_paired [of p i j v e]
    by (intro conjI) assumption+
qed

text \<open>
  C8. In the stack configuration (the longer unpaired run is 0) of well-formed boundaries,
  \<open>score_single_loop\<close> is \<open>helix_stacking (i, j) + helix_stacking (l, k)\<close> and reads
  these two entries and no other; \<open>count_single_loop\<close> adds \<open>v\<close> to these two entries
  and changes nothing else. In particular no entry of \<open>base_internal\<close>,
  \<open>mismatch_internal\<close>, \<open>bulge_length\<close>, \<open>internal_length\<close>,
  \<open>internal_explicit\<close>, \<open>internal_symmetry\<close> or \<open>internal_asymmetry\<close> is read or
  written.
\<close>

theorem stack_isolation:
  fixes p :: real_tables
  assumes "wf_single_loop i j k l" and "max (run1 i k) (run2 j l) = 0"
  shows
    "score_single_loop p i j k l = score_helix_stacking p i j + score_helix_stacking p l k
     \<and> reads_of (\<lambda>q :: real_tables. score_single_loop q i j k l) = {Helix_stacking i j, Helix_stacking l k}
     \<and> count_at (count_single_loop p i j k l v) e =
         (if e = Helix_stacking i j \<or> e = Helix_stacking l k then count_at p e + v
          else count_at p e)
     \<and> score_at (count_single_loop p i j k l v) e = score_at p e
     \<and> count_base_internal (count_single_loop p i j k l v) = count_base_internal p
     \<and> count_mismatch_internal (count_single_loop p i j k l v) = count_mismatch_internal p
     \<and> count_bulge_length (count_single_loop p i j k l v) = count_bulge_length p
     \<and> count_internal_length (count_single_loop p i j k l v) = count_internal_length p
     \<and> count_internal_explicit (count_single_loop p i j k l v) = count_internal_explicit p
     \<and> count_internal_symmetry (count_single_loop p i j k l v) = count_internal_symmetry p
     \<and> count_internal_asymmetry (count_single_loop p i j k l v) = count_internal_asymmetry p"
proof -
  have d: "i \<noteq> l \<or> j \<noteq> k"
    using assms(1) by (rule wf_single_loop_distinct)
  have rs: "single_loop_reads i j k l = [Helix_stacking i j, Helix_stacking l k]"
    using assms(2) by (rule single_loop_reads_stack)
  have s: "score_single_loop p i j k l = score_helix_stacking p i j + score_helix_stacking p l k"
    by (simp add: score_single_loop_sum rs)
  have r: "reads_of (\<lambda>q :: real_tables. score_single_loop q i j k l) = {Helix_stacking i j, Helix_stacking l k}"
    by (simp add: reads_of_single_loop rs)
  have c: "count_at (count_single_loop p i j k l v) e =
         (if e = Helix_stacking i j \<or> e = Helix_stacking l k then count_at p e + v
          else count_at p e)"
    using count_single_loop_at [OF d, of p v e] by (auto simp add: rs skipped_def)
  have st: "count_single_loop p i j k l v = count_stack p i j k l v"
    using assms(2) by (simp add: count_single_loop_cases)
  have f: "count_base_internal (count_stack p i j k l v) = count_base_internal p"
    "count_mismatch_internal (count_stack p i j k l v) = count_mismatch_internal p"
    "count_bulge_length (count_stack p i j k l v) = count_bulge_length p"
    "count_internal_length (count_stack p i j k l v) = count_internal_length p"
    "count_internal_explicit (count_stack p i j k l v) = count_internal_explicit p"
    "count_internal_symmetry (count_stack p i j k l v) = count_internal_symmetry p"
    "count_internal_asymmetry (count_stack p i j k l v) = count_internal_asymmetry p"
    by (simp_all add: count_stack_def Let_def)
  show ?thesis
    using s r c score_at_count_single_loop [of p i j k l v e] f
    unfolding st by (intro conjI) assumption+
qed

theorem stack_isolation_witness:
  "wf_single_loop 3 8 4 7 \<and> max (run1 3 4) (run2 8 7) = 0
   \<and> score_single_loop zero_pnn 3 8 4 7 = 0
   \<and> count_at (count_single_loop zero_pnn 3 8 4 7 2) (Helix_stacking 3 8) = 2
   \<and> count_at (count_single_loop zero_pnn 3 8 4 7 2) (Helix_stacking 7 4) = 2
   \<and> count_at (count_single_loop zero_pnn 3 8 4 7 2) (Helix_stacking 4 7) = 0
   \<and> count_at (count_single_loop zero_pnn 3 8 4 7 2) (Mismatch_internal 3 8) = 0"
proof -
  have wf: "wf_single_loop 3 8 4 7" by (simp add: wf_single_loop_def)
  have st: "max (run1 3 4) (run2 8 7) = 0" by (simp add: run1_def run2_def)
  note s = stack_isolation [OF wf st, THEN conjunct1]
  note c = stack_isolation [OF wf st, THEN conjunct2, THEN conjunct2, THEN conjunct1]
  show ?thesis
    using wf st s [of zero_pnn] c [of zero_pnn 2 "Helix_stacking 3 8"]
      c [of zero_pnn 2 "Helix_stacking 7 4"] c [of zero_pnn 2 "Helix_stacking 4 7"]
      c [of zero_pnn 2 "Mismatch_internal 3 8"]
    by (simp add: zero_pnn_def)
qed




text \<open>
  C10. As stated the claim fails at one boundary: when the low 16 bits of the bulge length
  are exactly 30 the bucket read is \<open>bulge_length[30]\<close>, the ceiling bucket itself. The
  well-formed bulge \<open>i = 0\<close>, \<open>k = 1\<close>, \<open>l = 2\<close>, \<open>j = 65569\<close> has
  \<open>ll = 65566 = 2^16 + 30\<close>, and its score includes \<open>bulge_length[30]\<close>.
\<close>

theorem bulge_clamp_16bit_counterexample:
  "wf_single_loop 0 65569 1 2
   \<and> min (run1 0 1) (run2 65569 2) = 0
   \<and> max (run1 0 1) (run2 65569 2) = 65566
   \<and> (2 ^ 16 :: size_t) \<le> 65566
   \<and> unat (65566 :: size_t) mod 2 ^ 16 \<le> 30
   \<and> score_single_loop (poke_score (Bulge_length 30) 1 zero_pnn) 0 65569 1 2 = 1"
  by (simp add: wf_single_loop_def bulge_65566 score_single_loop_cases score_bulge_eq
      zero_pnn_def)

text \<open>
  C10, amended. In the bulge branch \<open>score_single_loop\<close> reads \<open>bulge_length[m]\<close> with
  \<open>m\<close> the minimum of 30 and \<open>ll\<close> modulo \<open>2^16\<close>. For every \<open>ll \<ge> 2^16\<close> whose
  low 16 bits are below 30 (such as \<open>ll = 65536\<close>, bucket 0) this is the bucket of the low
  16 bits and not bucket 30; when the low 16 bits are 30 or more it is bucket 30. The
  hairpin and internal-loop length clamps take their length modulo \<open>2^32\<close>, and
  \<open>count_single_loop\<close> tests \<open>ll \<le> 30\<close> and indexes with \<open>ll\<close> at full width.
\<close>

theorem bulge_clamp_16bit:
  fixes i j a b k l :: size_t
  defines "ls \<equiv> min (run1 a k) (run2 b l)" and "ll \<equiv> max (run1 a k) (run2 b l)"
  shows
    "(ll \<noteq> 0 \<and> ls = 0 \<longrightarrow>
        (Bulge_length n \<in> reads_of (\<lambda>q :: real_tables. score_single_loop q a b k l)) =
          (n = min_u_int16_t ll 30)
        \<and> count_bulge_length (count_single_loop p a b k l v) =
           (if ll \<le> 30 then (count_bulge_length p)(ll := count_bulge_length p ll + v)
            else count_bulge_length p))
     \<and> unat (min_u_int16_t x 30) = min (unat x mod 2 ^ 16) 30
     \<and> (2 ^ 16 \<le> x \<and> unat x mod 2 ^ 16 < 30 \<longrightarrow>
          unat (min_u_int16_t x 30) = unat x mod 2 ^ 16 \<and> min_u_int16_t x 30 \<noteq> 30)
     \<and> (30 \<le> unat x mod 2 ^ 16 \<longrightarrow> min_u_int16_t x 30 = 30)
     \<and> min_u_int16_t 65536 30 = 0
     \<and> (Hairpin_length n \<in> reads_of (\<lambda>q :: real_tables. score_hairpin q i j)) =
         (n = min_u_int32_t (hairpin_len i j) 30)
     \<and> (ls \<noteq> 0 \<longrightarrow>
          (Internal_length n \<in> reads_of (\<lambda>q :: real_tables. score_single_loop q a b k l)) =
            (n = min_u_int32_t (ls + ll) 30))
     \<and> unat (min_u_int32_t x 30) = min (unat x mod 2 ^ 32) 30"
proof -
  have b: "ll \<noteq> 0 \<and> ls = 0 \<longrightarrow>
        (Bulge_length n \<in> reads_of (\<lambda>q :: real_tables. score_single_loop q a b k l)) =
          (n = min_u_int16_t ll 30)
        \<and> count_bulge_length (count_single_loop p a b k l v) =
           (if ll \<le> 30 then (count_bulge_length p)(ll := count_bulge_length p ll + v)
            else count_bulge_length p)"
    using bulge_length_read [of a k b l n] count_bulge_length_eq [of a k b l p v]
    by (simp add: ls_def ll_def add1_def)
  have u16: "unat (min_u_int16_t x 30) = min (unat x mod 2 ^ 16) 30"
    by (simp add: unat_min_u_int16_t)
  have lo: "2 ^ 16 \<le> x \<and> unat x mod 2 ^ 16 < 30 \<longrightarrow>
      unat (min_u_int16_t x 30) = unat x mod 2 ^ 16 \<and> min_u_int16_t x 30 \<noteq> 30"
    using min_u_int16_t_low [of x] by blast
  have hi: "30 \<le> unat x mod 2 ^ 16 \<longrightarrow> min_u_int16_t x 30 = 30"
    using min_u_int16_t_high [of x] by blast
  have ex: "min_u_int16_t 65536 30 = 0"
    by (simp add: min_u_int16_t_def)
  have n: "ls \<noteq> 0 \<longrightarrow>
      (Internal_length n \<in> reads_of (\<lambda>q :: real_tables. score_single_loop q a b k l)) =
        (n = min_u_int32_t (ls + ll) 30)"
    using internal_length_read [of a k b l n] by (simp add: ls_def ll_def)
  have u32: "unat (min_u_int32_t x 30) = min (unat x mod 2 ^ 32) 30"
    by (simp add: unat_min_u_int32_t)
  show ?thesis
    using b u16 lo hi ex hairpin_length_read [of n i j] n u32
    by (intro conjI) assumption+
qed

theorem bulge_clamp_16bit_witness:
  "max (run1 0 1) (run2 65539 2) \<noteq> 0 \<and> min (run1 0 1) (run2 65539 2) = 0
   \<and> max (run1 0 1) (run2 65539 2) = 65536
   \<and> Bulge_length 0 \<in> reads_of (\<lambda>q :: real_tables. score_single_loop q 0 65539 1 2)
   \<and> Bulge_length 30 \<notin> reads_of (\<lambda>q :: real_tables. score_single_loop q 0 65539 1 2)
   \<and> count_bulge_length (count_single_loop zero_pnn 0 65539 1 2 1) = count_bulge_length zero_pnn
   \<and> (2 ^ 16 :: size_t) \<le> 65541 \<and> unat (65541 :: size_t) mod 2 ^ 16 < 30
   \<and> unat (min_u_int16_t 65541 30) = 5
   \<and> (30 :: nat) \<le> unat (65566 :: size_t) mod 2 ^ 16
   \<and> min_u_int16_t 65566 30 = 30
   \<and> min (run1 0 2) (run2 9 5) \<noteq> 0
   \<and> Internal_length 4 \<in> reads_of (\<lambda>q :: real_tables. score_single_loop q 0 9 2 5)"
proof -
  have r: "run1 0 1 = 0" "run2 65539 2 = 65536" "run1 0 2 = 1" "run2 9 5 = 3"
    by (simp_all add: run1_def run2_def)
  have m: "min_u_int16_t 65536 30 = 0" "min_u_int32_t 4 30 = 4"
    by (simp_all add: min_u_int16_t_def min_u_int32_t_def)
  note t0 = bulge_clamp_16bit [where a = 0 and b = 65539 and k = 1 and l = 2
      and p = zero_pnn and v = 1 and n = 0, THEN conjunct1]
  note t30 = bulge_clamp_16bit [where a = 0 and b = 65539 and k = 1 and l = 2
      and p = zero_pnn and v = 1 and n = 30, THEN conjunct1]
  have a1: "Bulge_length 0 \<in> reads_of (\<lambda>q :: real_tables. score_single_loop q 0 65539 1 2)"
    using t0 by (simp add: r m)
  have a2: "Bulge_length 30 \<notin> reads_of (\<lambda>q :: real_tables. score_single_loop q 0 65539 1 2)"
    using t30 by (simp add: r m)
  have a3: "count_bulge_length (count_single_loop zero_pnn 0 65539 1 2 1) =
      count_bulge_length zero_pnn"
    using t0 by (simp add: r)
  have a4: "unat (min_u_int16_t 65541 30) = 5"
    using bulge_clamp_16bit [where x = 65541, THEN conjunct2, THEN conjunct2, THEN conjunct1]
    by simp
  have a5: "min_u_int16_t 65566 30 = 30"
    using bulge_clamp_16bit [where x = 65566, THEN conjunct2, THEN conjunct2, THEN conjunct2,
        THEN conjunct1]
    by simp
  have a6: "Internal_length 4 \<in> reads_of (\<lambda>q :: real_tables. score_single_loop q 0 9 2 5)"
    using bulge_clamp_16bit [where a = 0 and b = 9 and k = 2 and l = 5 and n = 4,
        THEN conjunct2, THEN conjunct2, THEN conjunct2, THEN conjunct2, THEN conjunct2,
        THEN conjunct2, THEN conjunct1]
    by (simp add: r m)
  show ?thesis
    using a1 a2 a3 a4 a5 a6 by (simp add: r)
qed

end
